theory Spec2Isabelle
  imports Main "HOL-Library.AList" "HOL-Library.Word"
begin

section \<open>Data model\<close>

text \<open>
  The repository holds two variants of one command-line program. Variant B
  (\<^verbatim>\<open>main.go\<close>) searches the photo library with a filter payload; variant A (the picker
  program) negotiates a picker session and pages through the user's selection. Both end
  in the same downloader.
\<close>

type_synonym bytes = "8 word list"

text \<open>Variant B: \<^verbatim>\<open>MediaItem\<close> and \<^verbatim>\<open>MediaItemsResponse\<close>.\<close>

record MediaItem =
  ItemId :: string
  BaseUrl :: string
  Filename :: string

record MediaItemsResponse =
  MediaItems :: "MediaItem list"
  NextPageToken :: string

text \<open>Variant A: \<^verbatim>\<open>PollingConfig\<close>, \<^verbatim>\<open>PickingSession\<close>, \<^verbatim>\<open>MediaFile\<close>, \<^verbatim>\<open>MediaType\<close>,
  \<^verbatim>\<open>PickedMediaItem\<close>, \<^verbatim>\<open>MediaItemsList\<close> and \<^verbatim>\<open>DownloadableMediaItems\<close>.\<close>

record PollingConfig =
  PollInterval :: string
  TimeoutIn :: string

record PickingSession =
  ID :: string
  MediaItemsSet :: bool
  PickerURI :: string
  PollingConfig :: PollingConfig

record MediaFile =
  FileBaseUrl :: string
  FileFilename :: string

type_synonym MediaType = string

record PickedMediaItem =
  PickedId :: string
  CreateTime :: string
  Type :: MediaType
  MediaFile :: MediaFile

record MediaItemsList =
  ListMediaItems :: "PickedMediaItem list"
  ListNextPageToken :: string

record DownloadableMediaItems =
  PickedItems :: "PickedMediaItem list"

definition sessionURL :: string where
  "sessionURL = ''https://photospicker.googleapis.com/v1/sessions''"

definition mediaItemsURL :: string where
  "mediaItemsURL = ''https://photospicker.googleapis.com/v1/mediaItems''"

definition searchURL :: string where
  "searchURL = ''https://photoslibrary.googleapis.com/v1/mediaItems:search''"

text \<open>
  The values a Go \<^verbatim>\<open>map[string]interface{}\<close> can hold. \<open>JUnsupported\<close> stands for the Go
  values \<^verbatim>\<open>json.Marshal\<close> rejects (channels, functions, NaN).
\<close>

datatype json =
    JNum int
  | JStr string
  | JArr "json list"
  | JObj "(string \<times> json) list"
  | JUnsupported

type_synonym payload = "(string \<times> json) list"

fun marshalable :: "json \<Rightarrow> bool" where
  "marshalable (JNum n) = True"
| "marshalable (JStr s) = True"
| "marshalable (JArr xs) = list_all marshalable xs"
| "marshalable (JObj kvs) = list_all marshalable (map snd kvs)"
| "marshalable JUnsupported = False"

definition marshal_ok :: "payload \<Rightarrow> bool" where
  "marshal_ok p = list_all marshalable (map snd p)"

text \<open>
  An HTTP request as the client builds it: a GET with the query values added to the URL
  in the order of the \<^verbatim>\<open>Add\<close> calls, or a POST with its content type and JSON payload.
\<close>

datatype request =
    GET string "(string \<times> string) list"
  | POST string string payload

text \<open>What a request comes back with: a transport error, or a status code and a body.\<close>

datatype http_result =
    TransportError
  | Response int bytes

datatype error =
    StatError
  | RequestError
  | CreateError
  | CopyError
  | DownloadStatus string int
  | MarshalError
  | NonOKStatus int bytes
  | DecodeError
  | FetchStatus int
  | CheckStatus int
  | InvalidDuration
  | SessionTimedOut int
  | OpenError
  | Wrapped string error

text \<open>The lines the program prints while downloading.\<close>

datatype line =
    AlreadyExists string
  | Downloaded string
  | ErrorDownloading string error

text \<open>
  A Go call returns, panics, ends the process through \<^verbatim>\<open>log.Fatalf\<close>, or blocks for
  ever on a channel receive.
\<close>

datatype 'a outcome = Return 'a | Panic | Fatal | Blocked

section \<open>The world and its environment\<close>

text \<open>
  The state the program changes: the local files (path to content), the HTTP requests
  issued so far (oldest first), the printed lines, the Go maps held by reference (a
  reference absent from the store is the nil map), the number of web authorization flows
  started, and whether the callback handler has been registered on the default mux.
\<close>

record world =
  files :: "string \<rightharpoonup> bytes"
  requests :: "request list"
  stdout :: "line list"
  heap :: "nat \<rightharpoonup> payload"
  web_flows :: nat
  handler_registered :: bool

text \<open>
  What the program does not control: the answer to the \<open>n\<close>-th request issued, the
  paths \<^verbatim>\<open>os.Stat\<close> and \<^verbatim>\<open>os.Open\<close> fail on for a reason other than absence, the paths
  \<^verbatim>\<open>os.Create\<close> cannot create, the point at which \<^verbatim>\<open>io.Copy\<close> to a path breaks off,
  \<^verbatim>\<open>filepath.Join\<close>, the JSON decoders of the response types, the token codec, the
  course of the \<open>n\<close>-th web flow (a token, a failed exchange, or no callback ever), the
  clock, \<^verbatim>\<open>time.ParseDuration\<close> (in nanoseconds), the time the \<open>n\<close>-th request takes
  (in nanoseconds), and what a \<^verbatim>\<open>select\<close> takes when the ticker and the timer are both
  ready (indexed by the number of requests issued before it).
\<close>

record token =
  AccessToken :: string
  Expiry :: int

datatype flow_result = Authorized token | ExchangeFailed | NoCallback

record env =
  http :: "nat \<Rightarrow> request \<Rightarrow> http_result"
  inaccessible :: "string \<Rightarrow> bool"
  create_err :: "string \<Rightarrow> bool"
  copy_fail :: "string \<Rightarrow> nat option"
  path_join :: "string \<Rightarrow> string \<Rightarrow> string"
  decode_search :: "bytes \<Rightarrow> MediaItemsResponse option"
  decode_list :: "bytes \<Rightarrow> MediaItemsList option"
  decode_session :: "bytes \<Rightarrow> PickingSession option"
  decode_token :: "bytes \<Rightarrow> token option"
  encode_token :: "token \<Rightarrow> bytes"
  web_flow :: "nat \<Rightarrow> flow_result"
  now :: int
  ParseDuration :: "string \<Rightarrow> int option"
  latency :: "nat \<Rightarrow> nat"
  tick_first :: "nat \<Rightarrow> bool"

text \<open>\<^verbatim>\<open>client.Get\<close>, \<^verbatim>\<open>client.Do\<close>: the request is logged and the environment answers.\<close>

definition send :: "env \<Rightarrow> request \<Rightarrow> world \<Rightarrow> http_result \<times> world" where
  "send e req w = (http e (length (requests w)) req, w\<lparr>requests := requests w @ [req]\<rparr>)"

datatype stat_result = StatOK | StatNotExist | StatFailed

definition os_Stat :: "env \<Rightarrow> string \<Rightarrow> world \<Rightarrow> stat_result" where
  "os_Stat e p w =
     (if inaccessible e p then StatFailed
      else case files w p of Some c \<Rightarrow> StatOK | None \<Rightarrow> StatNotExist)"

section \<open>The downloader\<close>

text \<open>
  \<^verbatim>\<open>DownloadMediaItem\<close> has the same body in both variants; only the type of \<open>item\<close>
  differs. \<open>download\<close> is that body over the two fields it reads. A failed
  \<^verbatim>\<open>os.Create\<close> creates nothing; a copy that breaks off after \<open>k\<close> bytes leaves them in
  the file.
\<close>

definition download ::
  "env \<Rightarrow> string \<Rightarrow> string \<Rightarrow> string \<Rightarrow> world \<Rightarrow> error option \<times> world" where
  "download e baseUrl filename folder w =
     (let downloadUrl = baseUrl @ ''=d'';
          filePath = path_join e folder filename
      in case os_Stat e filePath w of
           StatOK \<Rightarrow> (None, w\<lparr>stdout := stdout w @ [AlreadyExists filename]\<rparr>)
         | StatFailed \<Rightarrow> (Some StatError, w)
         | StatNotExist \<Rightarrow>
             (case send e (GET downloadUrl []) w of
                (TransportError, w1) \<Rightarrow> (Some RequestError, w1)
              | (Response status body, w1) \<Rightarrow>
                  if status \<noteq> 200 then (Some (DownloadStatus filename status), w1)
                  else if create_err e filePath then (Some CreateError, w1)
                  else (case copy_fail e filePath of
                          Some k \<Rightarrow>
                            (Some CopyError,
                             w1\<lparr>files := (files w1)(filePath \<mapsto> take k body)\<rparr>)
                        | None \<Rightarrow>
                            (None,
                             w1\<lparr>files := (files w1)(filePath \<mapsto> body),
                                stdout := stdout w1 @ [Downloaded filename]\<rparr>))))"

definition DownloadMediaItem ::
  "env \<Rightarrow> MediaItem \<Rightarrow> string \<Rightarrow> world \<Rightarrow> error option \<times> world" where
  "DownloadMediaItem e item folder w = download e (BaseUrl item) (Filename item) folder w"

definition DownloadMediaItem_A ::
  "env \<Rightarrow> MediaFile \<Rightarrow> string \<Rightarrow> world \<Rightarrow> error option \<times> world" where
  "DownloadMediaItem_A e item folder w =
     download e (FileBaseUrl item) (FileFilename item) folder w"

text \<open>
  The download loops: \<^verbatim>\<open>downloadItems\<close> of variant A and the \<^verbatim>\<open>for\<close> loop that ends
  \<^verbatim>\<open>main\<close> of variant B. An error is printed and the loop goes on.
\<close>

fun downloadLoopA :: "env \<Rightarrow> PickedMediaItem list \<Rightarrow> string \<Rightarrow> world \<Rightarrow> world" where
  "downloadLoopA e [] folder w = w"
| "downloadLoopA e (item # rest) folder w =
     (case DownloadMediaItem_A e (MediaFile item) folder w of
        (Some err, w1) \<Rightarrow>
          downloadLoopA e rest folder
            (w1\<lparr>stdout := stdout w1 @ [ErrorDownloading (FileFilename (MediaFile item)) err]\<rparr>)
      | (None, w1) \<Rightarrow> downloadLoopA e rest folder w1)"

definition downloadItems :: "env \<Rightarrow> DownloadableMediaItems \<Rightarrow> string \<Rightarrow> world \<Rightarrow> world" where
  "downloadItems e items folder w = downloadLoopA e (PickedItems items) folder w"

fun main_download :: "env \<Rightarrow> MediaItem list \<Rightarrow> string \<Rightarrow> world \<Rightarrow> world" where
  "main_download e [] folder w = w"
| "main_download e (item # rest) folder w =
     (case DownloadMediaItem e item folder w of
        (Some err, w1) \<Rightarrow>
          main_download e rest folder
            (w1\<lparr>stdout := stdout w1 @ [ErrorDownloading (Filename item) err]\<rparr>)
      | (None, w1) \<Rightarrow> main_download e rest folder w1)"

section \<open>Pagination, variant B\<close>

text \<open>
  \<^verbatim>\<open>SearchMediaItems\<close>. \<open>payload := filterPayload\<close> copies the reference, so the two
  writes go to the caller's map; writing to the nil map panics. The loop has no bound of
  its own: a run that never returns is \<open>None\<close>. \<^verbatim>\<open>http.NewRequest\<close> cannot fail on
  the constant method and URL, and \<^verbatim>\<open>time.Sleep\<close> changes nothing the model holds.
  A Go function with results \<^verbatim>\<open>([]MediaItem, error)\<close> returns a pair.
\<close>

partial_function (option) SearchLoop ::
  "env \<Rightarrow> nat \<Rightarrow> string \<Rightarrow> MediaItem list \<Rightarrow> world
     \<Rightarrow> ((MediaItem list \<times> error option) outcome \<times> world) option" where
  "SearchLoop e filterPayload pageToken allItems w =
     (case heap w filterPayload of
        None \<Rightarrow> Some (Panic, w)
      | Some m \<Rightarrow>
          (let payload = AList.update ''pageSize'' (JNum 100) m;
               payload = (if pageToken \<noteq> [] then
                            AList.update ''pageToken'' (JStr pageToken) payload
                          else payload);
               w1 = w\<lparr>heap := (heap w)(filterPayload \<mapsto> payload)\<rparr>
           in if \<not> marshal_ok payload then
                Some (Return ([], Some (Wrapped ''error marshaling payload'' MarshalError)), w1)
              else
                (case send e (POST searchURL ''application/json'' payload) w1 of
                   (TransportError, w2) \<Rightarrow> Some (Return ([], Some RequestError), w2)
                 | (Response status body, w2) \<Rightarrow>
                     if status \<noteq> 200 then
                       Some (Return ([], Some (NonOKStatus status body)), w2)
                     else
                       (case decode_search e body of
                          None \<Rightarrow> Some (Return ([], Some DecodeError), w2)
                        | Some itemsResp \<Rightarrow>
                            (let allItems' = allItems @ MediaItems itemsResp
                             in if NextPageToken itemsResp = [] then
                                  Some (Return (allItems', None), w2)
                                else
                                  SearchLoop e filterPayload (NextPageToken itemsResp)
                                    allItems' w2)))))"

definition SearchMediaItems ::
  "env \<Rightarrow> nat \<Rightarrow> world \<Rightarrow> ((MediaItem list \<times> error option) outcome \<times> world) option" where
  "SearchMediaItems e filterPayload w = SearchLoop e filterPayload [] [] w"

section \<open>Pagination, variant A\<close>

definition no_list :: MediaItemsList where
  "no_list = \<lparr>ListMediaItems = [], ListNextPageToken = []\<rparr>"

definition no_items :: DownloadableMediaItems where
  "no_items = \<lparr>PickedItems = []\<rparr>"

text \<open>
  The two page fetchers. \<^verbatim>\<open>url.Parse\<close> of the constant \<open>mediaItemsURL\<close> succeeds and its
  query is empty, so the query is what the \<^verbatim>\<open>Add\<close> calls put there.
\<close>

definition getMediaItemsFromFirstPage ::
  "env \<Rightarrow> string \<Rightarrow> world \<Rightarrow> (MediaItemsList \<times> error option) \<times> world" where
  "getMediaItemsFromFirstPage e sessionID w =
     (let mediaItemsQuery = [(''sessionId'', sessionID), (''pageSize'', ''100'')]
      in case send e (GET mediaItemsURL mediaItemsQuery) w of
           (TransportError, w1) \<Rightarrow>
             ((no_list, Some (Wrapped ''failed to get media items'' RequestError)), w1)
         | (Response status body, w1) \<Rightarrow>
             if status \<noteq> 200 then ((no_list, Some (FetchStatus status)), w1)
             else (case decode_list e body of
                     None \<Rightarrow>
                       ((no_list,
                         Some (Wrapped ''failed to decode media items response'' DecodeError)),
                        w1)
                   | Some firstPageItems \<Rightarrow> ((firstPageItems, None), w1)))"

definition getMediaItemsFromPageURL ::
  "env \<Rightarrow> string \<Rightarrow> string \<Rightarrow> world \<Rightarrow> (MediaItemsList \<times> error option) \<times> world" where
  "getMediaItemsFromPageURL e sessionID pageToken w =
     (let mediaItemsQuery =
            [(''sessionId'', sessionID), (''pageSize'', ''100''), (''pageToken'', pageToken)]
      in case send e (GET mediaItemsURL mediaItemsQuery) w of
           (TransportError, w1) \<Rightarrow>
             ((no_list, Some (Wrapped ''failed to get media items from page URL'' RequestError)),
              w1)
         | (Response status body, w1) \<Rightarrow>
             if status \<noteq> 200 then ((no_list, Some (FetchStatus status)), w1)
             else (case decode_list e body of
                     None \<Rightarrow>
                       ((no_list,
                         Some (Wrapped ''failed to decode media items response'' DecodeError)),
                        w1)
                   | Some pageItems \<Rightarrow> ((pageItems, None), w1)))"

text \<open>The \<^verbatim>\<open>for nextPageToken != ""\<close> loop of \<^verbatim>\<open>fetchSelectedMediaItems\<close>.\<close>

partial_function (option) fetchLoop ::
  "env \<Rightarrow> string \<Rightarrow> string \<Rightarrow> PickedMediaItem list \<Rightarrow> world
     \<Rightarrow> ((DownloadableMediaItems \<times> error option) \<times> world) option" where
  "fetchLoop e sessionID nextPageToken items w =
     (if nextPageToken \<noteq> [] then
        (case getMediaItemsFromPageURL e sessionID nextPageToken w of
           ((pageList, Some err), w1) \<Rightarrow>
             Some ((no_items, Some (Wrapped ''failed to fetch next page media items'' err)), w1)
         | ((pageList, None), w1) \<Rightarrow>
             fetchLoop e sessionID (ListNextPageToken pageList)
               (items @ ListMediaItems pageList) w1)
      else Some ((\<lparr>PickedItems = items\<rparr>, None), w))"

definition fetchSelectedMediaItems ::
  "env \<Rightarrow> string \<Rightarrow> world \<Rightarrow> ((DownloadableMediaItems \<times> error option) \<times> world) option" where
  "fetchSelectedMediaItems e sessionID w =
     (case getMediaItemsFromFirstPage e sessionID w of
        ((firstPageList, Some err), w1) \<Rightarrow>
          Some ((no_items, Some (Wrapped ''failed to fetch first page media items'' err)), w1)
      | ((firstPageList, None), w1) \<Rightarrow>
          fetchLoop e sessionID (ListNextPageToken firstPageList)
            (ListMediaItems firstPageList) w1)"

section \<open>The selection negotiator\<close>






section \<open>The credential store\<close>

definition tokenFromFile :: "env \<Rightarrow> string \<Rightarrow> world \<Rightarrow> error + token" where
  "tokenFromFile e file w =
     (if inaccessible e file then Inl OpenError
      else case files w file of
             None \<Rightarrow> Inl OpenError
           | Some c \<Rightarrow> (case decode_token e c of None \<Rightarrow> Inl DecodeError | Some tok \<Rightarrow> Inr tok))"

definition saveToken :: "env \<Rightarrow> string \<Rightarrow> token \<Rightarrow> world \<Rightarrow> unit outcome \<times> world" where
  "saveToken e path tok w =
     (if create_err e path then (Fatal, w)
      else (Return (), w\<lparr>files := (files w)(path \<mapsto> encode_token e tok)\<rparr>))"

text \<open>
  \<^verbatim>\<open>getTokenFromWeb\<close> registers the callback handler for \<open>/\<close> on the default mux, which
  panics when the pattern is registered already, then blocks until the callback delivers
  the code (for ever, when it never does) and exchanges it.
\<close>

definition getTokenFromWeb :: "env \<Rightarrow> world \<Rightarrow> token outcome \<times> world" where
  "getTokenFromWeb e w =
     (let w1 = w\<lparr>web_flows := Suc (web_flows w)\<rparr>
      in if handler_registered w then (Panic, w1)
         else (let w2 = w1\<lparr>handler_registered := True\<rparr>
               in case web_flow e (web_flows w) of
                    NoCallback \<Rightarrow> (Blocked, w2)
                  | ExchangeFailed \<Rightarrow> (Fatal, w2)
                  | Authorized tok \<Rightarrow> (Return tok, w2)))"

definition getNewTokenAndSave :: "env \<Rightarrow> string \<Rightarrow> world \<Rightarrow> token outcome \<times> world" where
  "getNewTokenAndSave e file w =
     (case getTokenFromWeb e w of
        (Return tok, w1) \<Rightarrow>
          (case saveToken e file tok w1 of
             (Return u, w2) \<Rightarrow> (Return tok, w2)
           | (Panic, w2) \<Rightarrow> (Panic, w2)
           | (Fatal, w2) \<Rightarrow> (Fatal, w2)
           | (Blocked, w2) \<Rightarrow> (Blocked, w2))
      | (Panic, w1) \<Rightarrow> (Panic, w1)
      | (Fatal, w1) \<Rightarrow> (Fatal, w1)
      | (Blocked, w1) \<Rightarrow> (Blocked, w1))"

definition tokenFile :: string where
  "tokenFile = ''token.json''"

text \<open>The second half of \<^verbatim>\<open>getClient\<close>: the expiry check on the token in hand.\<close>

definition refresh_if_expired :: "env \<Rightarrow> token \<Rightarrow> world \<Rightarrow> token outcome \<times> world" where
  "refresh_if_expired e tok w =
     (if Expiry tok < now e then getNewTokenAndSave e tokenFile w
      else (Return tok, w))"

definition getClient :: "env \<Rightarrow> world \<Rightarrow> token outcome \<times> world" where
  "getClient e w =
     (case tokenFromFile e tokenFile w of
        Inl err \<Rightarrow>
          (case getNewTokenAndSave e tokenFile w of
             (Return tok, w1) \<Rightarrow> refresh_if_expired e tok w1
           | (Panic, w1) \<Rightarrow> (Panic, w1)
           | (Fatal, w1) \<Rightarrow> (Fatal, w1)
           | (Blocked, w1) \<Rightarrow> (Blocked, w1))
      | Inr tok \<Rightarrow> refresh_if_expired e tok w)"

section \<open>Notions the statements use\<close>

text \<open>
  The payload lines 54 to 58 of \<^verbatim>\<open>SearchMediaItems\<close> leave in the caller's map when the
  map held \<open>m\<close> and the page token is \<open>pageToken\<close>, and the request that carries it.
\<close>

definition search_payload :: "payload \<Rightarrow> string \<Rightarrow> payload" where
  "search_payload m pageToken =
     (if pageToken \<noteq> [] then
        AList.update ''pageToken'' (JStr pageToken) (AList.update ''pageSize'' (JNum 100) m)
      else AList.update ''pageSize'' (JNum 100) m)"

definition search_request :: "payload \<Rightarrow> string \<Rightarrow> request" where
  "search_request m pageToken = POST searchURL ''application/json'' (search_payload m pageToken)"

text \<open>
  The request of the picker's page fetchers: \<^verbatim>\<open>getMediaItemsFromFirstPage\<close> for the
  first page (no token), \<^verbatim>\<open>getMediaItemsFromPageURL\<close> for a page token.
\<close>

definition list_request :: "string \<Rightarrow> string \<Rightarrow> request" where
  "list_request sessionID pageToken =
     (if pageToken = [] then
        GET mediaItemsURL [(''sessionId'', sessionID), (''pageSize'', ''100'')]
      else
        GET mediaItemsURL
          [(''sessionId'', sessionID), (''pageSize'', ''100''), (''pageToken'', pageToken)])"


text \<open>The page token and the page size a request carries.\<close>

fun page_token_of :: "request \<Rightarrow> string option" where
  "page_token_of (GET u q) = map_of q ''pageToken''"
| "page_token_of (POST u ct p) =
     (case map_of p ''pageToken'' of Some (JStr t) \<Rightarrow> Some t | _ \<Rightarrow> None)"

fun asks_page_size_100 :: "request \<Rightarrow> bool" where
  "asks_page_size_100 (GET u q) =
     (map snd (filter (\<lambda>kv. fst kv = ''pageSize'') q) = [''100''])"
| "asks_page_size_100 (POST u ct p) = (map_of p ''pageSize'' = Some (JNum 100))"

text \<open>
  \<open>answers h n qs as\<close>: the requests \<open>qs\<close>, issued as the \<open>n\<close>-th request and the ones
  after it, are answered with \<open>as\<close>, one each.
\<close>

fun answers ::
  "(nat \<Rightarrow> request \<Rightarrow> http_result) \<Rightarrow> nat \<Rightarrow> request list \<Rightarrow> http_result list \<Rightarrow> bool" where
  "answers h n [] [] = True"
| "answers h n (q # qs) (a # as) = (h n q = a \<and> answers h (Suc n) qs as)"
| "answers h n [] (a # as) = False"
| "answers h n (q # qs) [] = False"

text \<open>
  \<open>pages_of dec bs ps\<close>: the bodies \<open>bs\<close> decode to the pages \<open>ps\<close>, one each.
\<close>

fun pages_of :: "(bytes \<Rightarrow> 'a option) \<Rightarrow> bytes list \<Rightarrow> 'a list \<Rightarrow> bool" where
  "pages_of dec [] [] = True"
| "pages_of dec (b # bs) (p # ps) = (dec b = Some p \<and> pages_of dec bs ps)"
| "pages_of dec [] (p # ps) = False"
| "pages_of dec (b # bs) [] = False"

text \<open>
  A failed page: the request fails, the status is not 200, or the body does not decode.
\<close>

fun failed_page :: "(bytes \<Rightarrow> 'a option) \<Rightarrow> http_result \<Rightarrow> bool" where
  "failed_page dec TransportError = True"
| "failed_page dec (Response status body) = (status \<noteq> 200 \<or> dec body = None)"


text \<open>The file name a printed line is about.\<close>

fun reported :: "line \<Rightarrow> string" where
  "reported (AlreadyExists name) = name"
| "reported (Downloaded name) = name"
| "reported (ErrorDownloading name err) = name"

text \<open>
  The map in the store is the caller's map \<open>m\<close>, or what an earlier round of
  \<^verbatim>\<open>SearchMediaItems\<close> left of it.
\<close>

definition carried :: "payload \<Rightarrow> payload \<Rightarrow> string \<Rightarrow> bool" where
  "carried m mc t = (mc = m \<or> (t \<noteq> [] \<and> (\<exists>s. mc = search_payload m s)))"

section \<open>A concrete run\<close>

text \<open>
  One photo server to run the program against. It serves the bytes of one photo, two
  pages of search results and of picked items (the first page names the token
  \<open>next\<close>), and a picker session \<open>s1\<close> that is pending at the first request and
  complete afterwards. Everything else is a 404.
\<close>

definition demo_server :: "nat \<Rightarrow> request \<Rightarrow> http_result" where
  "demo_server n req =
     (case req of
        GET u q \<Rightarrow>
          if u = ''https://lh3/sunset=d'' then Response 200 [1, 2, 3]
          else if u = mediaItemsURL then
            (case map_of q ''pageToken'' of
               None \<Rightarrow> Response 200 [1]
             | Some t \<Rightarrow> if t = ''next'' then Response 200 [2] else Response 404 [])
          else if u = sessionURL @ ''/s1'' then
            (if n = 0 then Response 200 [0] else Response 200 [9])
          else Response 404 []
      | POST u ct p \<Rightarrow>
          (case map_of p ''pageToken'' of
             Some (JStr t) \<Rightarrow> if t = ''next'' then Response 200 [2] else Response 404 []
           | _ \<Rightarrow> Response 200 [1]))"

definition sunset :: MediaItem where
  "sunset = \<lparr>ItemId = ''1'', BaseUrl = ''https://lh3/sunset'', Filename = ''sunset.jpg''\<rparr>"

definition gone :: MediaItem where
  "gone = \<lparr>ItemId = ''2'', BaseUrl = ''https://lh3/gone'', Filename = ''gone.jpg''\<rparr>"

definition sunset_file :: MediaFile where
  "sunset_file = \<lparr>FileBaseUrl = ''https://lh3/sunset'', FileFilename = ''sunset.jpg''\<rparr>"

definition gone_file :: MediaFile where
  "gone_file = \<lparr>FileBaseUrl = ''https://lh3/gone'', FileFilename = ''gone.jpg''\<rparr>"

definition picked :: "MediaFile \<Rightarrow> PickedMediaItem" where
  "picked f = \<lparr>PickedId = ''p'', CreateTime = ''2024'', Type = ''PHOTO'', MediaFile = f\<rparr>"

definition search_page1 :: MediaItemsResponse where
  "search_page1 = \<lparr>MediaItems = [gone], NextPageToken = ''next''\<rparr>"

definition search_page2 :: MediaItemsResponse where
  "search_page2 = \<lparr>MediaItems = [sunset], NextPageToken = []\<rparr>"

definition list_page1 :: MediaItemsList where
  "list_page1 = \<lparr>ListMediaItems = [picked gone_file], ListNextPageToken = ''next''\<rparr>"

definition list_page2 :: MediaItemsList where
  "list_page2 = \<lparr>ListMediaItems = [picked sunset_file], ListNextPageToken = []\<rparr>"

definition old_token :: token where
  "old_token = \<lparr>AccessToken = ''old'', Expiry = 10\<rparr>"

definition new_token :: token where
  "new_token = \<lparr>AccessToken = ''new'', Expiry = 200\<rparr>"

definition join_slash :: "string \<Rightarrow> string \<Rightarrow> string" where
  "join_slash folder name = folder @ ''/'' @ name"

definition demo_env :: env where
  "demo_env =
     \<lparr>http = demo_server,
      inaccessible = (\<lambda>p. p = ''locked/sunset.jpg''),
      create_err = (\<lambda>p. False),
      copy_fail = (\<lambda>p. if p = ''full/sunset.jpg'' then Some 2 else None),
      path_join = join_slash,
      decode_search =
        (\<lambda>b. if b = [1] then Some search_page1 else if b = [2] then Some search_page2 else None),
      decode_list =
        (\<lambda>b. if b = [1] then Some list_page1 else if b = [2] then Some list_page2 else None),
      decode_session =
        (\<lambda>b. if b = [0] then
               Some \<lparr>ID = ''s1'', MediaItemsSet = False, PickerURI = [],
                     PollingConfig = \<lparr>PollInterval = ''5s'', TimeoutIn = ''60s''\<rparr>\<rparr>
             else if b = [9] then
               Some \<lparr>ID = ''s1'', MediaItemsSet = True, PickerURI = [],
                     PollingConfig = \<lparr>PollInterval = ''5s'', TimeoutIn = ''60s''\<rparr>\<rparr>
             else None),
      decode_token = (\<lambda>b. if b = [7] then Some old_token else None),
      encode_token = (\<lambda>t. if t = new_token then [8] else [7]),
      web_flow = (\<lambda>n. Authorized new_token),
      now = 100,
      ParseDuration =
        (\<lambda>s. if s = ''5s'' then Some 5000000000
             else if s = ''7s'' then Some 7000000000
             else if s = ''60s'' then Some 60000000000 else None),
      latency = (\<lambda>n. 1000000000),
      tick_first = (\<lambda>n. False)\<rparr>"

text \<open>The same server behind a network that drops every request after the first.\<close>

definition flaky_env :: env where
  "flaky_env = demo_env\<lparr>http := (\<lambda>n req. if n = 0 then demo_server n req else TransportError)\<rparr>"




text \<open>The filter payload \<^verbatim>\<open>main\<close> of variant B passes, and a world that holds it.\<close>

definition favorites :: payload where
  "favorites =
     [(''filters'',
       JObj [(''featureFilter'', JObj [(''includedFeatures'', JArr [JStr ''FAVORITES''])])])]"

definition empty_world :: world where
  "empty_world =
     \<lparr>files = Map.empty, requests = [], stdout = [], heap = Map.empty, web_flows = 0,
      handler_registered = False\<rparr>"

definition search_world :: world where
  "search_world = empty_world\<lparr>heap := [0 \<mapsto> favorites]\<rparr>"

definition cached_world :: world where
  "cached_world = empty_world\<lparr>files := [tokenFile \<mapsto> [7]]\<rparr>"



section \<open>Lemmas\<close>

lemma marshal_ok_update:
  "marshal_ok m \<Longrightarrow> marshalable v \<Longrightarrow> marshal_ok (AList.update k v m)"
  by (induction m) (auto simp: marshal_ok_def)

lemma marshal_ok_search_payload: "marshal_ok m \<Longrightarrow> marshal_ok (search_payload m t)"
  by (simp add: search_payload_def marshal_ok_update)

lemma search_payload_again:
  "search_payload (search_payload m t) t' = search_payload m (if t' \<noteq> [] then t' else t)"
proof -
  have b: "AList.update ''pageSize'' (JNum 100)
            (AList.update ''pageToken'' (JStr t) (AList.update ''pageSize'' (JNum 100) m))
        = AList.update ''pageToken'' (JStr t) (AList.update ''pageSize'' (JNum 100) m)"
    by (rule AList.update_triv) (simp add: AList.update_conv')
  show ?thesis
    by (simp add: search_payload_def b)
qed

lemma search_payload_page_size: "map_of (search_payload m t) ''pageSize'' = Some (JNum 100)"
  by (simp add: search_payload_def AList.update_conv')

lemma SearchLoop_unfold:
  assumes "heap w r = Some m"
  shows "SearchLoop e r t acc w =
     (let w1 = w\<lparr>heap := (heap w)(r \<mapsto> search_payload m t)\<rparr>
      in if \<not> marshal_ok (search_payload m t) then
           Some (Return ([], Some (Wrapped ''error marshaling payload'' MarshalError)), w1)
         else
           (case http e (length (requests w)) (search_request m t) of
              TransportError \<Rightarrow>
                Some (Return ([], Some RequestError),
                      w1\<lparr>requests := requests w @ [search_request m t]\<rparr>)
            | Response status body \<Rightarrow>
                if status \<noteq> 200 then
                  Some (Return ([], Some (NonOKStatus status body)),
                        w1\<lparr>requests := requests w @ [search_request m t]\<rparr>)
                else
                  (case decode_search e body of
                     None \<Rightarrow>
                       Some (Return ([], Some DecodeError),
                             w1\<lparr>requests := requests w @ [search_request m t]\<rparr>)
                   | Some p \<Rightarrow>
                       if NextPageToken p = [] then
                         Some (Return (acc @ MediaItems p, None),
                               w1\<lparr>requests := requests w @ [search_request m t]\<rparr>)
                       else
                         SearchLoop e r (NextPageToken p) (acc @ MediaItems p)
                           (w1\<lparr>requests := requests w @ [search_request m t]\<rparr>))))"
  using assms
  apply (subst SearchLoop.simps)
  apply (simp add: search_payload_def search_request_def send_def Let_def
      split: http_result.splits option.splits)
  done

lemma carried_payload: "carried m mc t \<Longrightarrow> search_payload mc t = search_payload m t"
  by (auto simp: carried_def search_payload_again)

lemma carried_next: "t' \<noteq> [] \<Longrightarrow> carried m (search_payload m t) t'"
  by (auto simp: carried_def)

lemma SearchLoop_run:
  assumes "marshal_ok (search_payload m t)" "heap w r = Some mc" "carried m mc t"
    and "pages_of (decode_search e) bs (ps @ [p])"
    and "answers (http e) (length (requests w))
           (map (search_request m) (t # map NextPageToken ps)) (map (Response 200) bs)"
    and "\<forall>q\<in>set ps. NextPageToken q \<noteq> []" "NextPageToken p = []"
  shows "SearchLoop e r t acc w =
     Some (Return (acc @ concat (map MediaItems (ps @ [p])), None),
           w\<lparr>heap := (heap w)(r \<mapsto> search_payload m (last (t # map NextPageToken ps))),
             requests := requests w @ map (search_request m) (t # map NextPageToken ps)\<rparr>)"
  using assms
proof (induction ps arbitrary: bs t acc w mc)
  case Nil
  then obtain b where bs: "bs = [b]" "decode_search e b = Some p"
    by (cases bs; cases "tl bs") auto
  from Nil have pl: "search_payload mc t = search_payload m t" by (simp add: carried_payload)
  then have rq: "search_request mc t = search_request m t" by (simp add: search_request_def)
  have h: "http e (length (requests w)) (search_request m t) = Response 200 b"
    using Nil(5) bs by simp
  show ?case
    by (simp add: SearchLoop_unfold[OF Nil(2)] pl rq h bs Nil(1) Nil(7) fun_upd_def)
next
  case (Cons q qs)
  then obtain b bs' where bs: "bs = b # bs'" "decode_search e b = Some q"
      "pages_of (decode_search e) bs' (qs @ [p])"
    by (cases bs) auto
  from Cons.prems have pl: "search_payload mc t = search_payload m t" by (simp add: carried_payload)
  then have rq: "search_request mc t = search_request m t" by (simp add: search_request_def)
  let ?w = "w\<lparr>heap := (heap w)(r \<mapsto> search_payload m t),
               requests := requests w @ [search_request m t]\<rparr>"
  have tq: "NextPageToken q \<noteq> []" using Cons.prems by simp
  have h: "http e (length (requests w)) (search_request m t) = Response 200 b"
    using Cons.prems(5) bs by simp
  have step: "SearchLoop e r t acc w = SearchLoop e r (NextPageToken q) (acc @ MediaItems q) ?w"
    by (simp add: SearchLoop_unfold[OF Cons.prems(2)] pl rq h bs tq Cons.prems(1))
  have m2: "marshal_ok (search_payload m (NextPageToken q))"
    using marshal_ok_search_payload[OF Cons.prems(1), of "NextPageToken q"] tq
    by (simp add: search_payload_again)
  have ih: "SearchLoop e r (NextPageToken q) (acc @ MediaItems q) ?w =
     Some (Return ((acc @ MediaItems q) @ concat (map MediaItems (qs @ [p])), None),
           ?w\<lparr>heap := (heap ?w)(r \<mapsto> search_payload m (last (NextPageToken q # map NextPageToken qs))),
             requests := requests ?w @ map (search_request m) (NextPageToken q # map NextPageToken qs)\<rparr>)"
    apply (rule Cons.IH[OF m2 _ carried_next[OF tq] bs(3)])
    using Cons.prems bs by simp_all
  show ?case unfolding step ih by (simp cong: if_cong add: fun_upd_def)
qed


lemma SearchLoop_fails:
  assumes "marshal_ok (search_payload m t)" "heap w r = Some mc" "carried m mc t"
    and "pages_of (decode_search e) bs ps"
    and "answers (http e) (length (requests w))
           (map (search_request m) (t # map NextPageToken ps)) (map (Response 200) bs @ [bad])"
    and "\<forall>q\<in>set ps. NextPageToken q \<noteq> []" "failed_page (decode_search e) bad"
  shows "\<exists>err. SearchLoop e r t acc w =
     Some (Return ([], Some err),
           w\<lparr>heap := (heap w)(r \<mapsto> search_payload m (last (t # map NextPageToken ps))),
             requests := requests w @ map (search_request m) (t # map NextPageToken ps)\<rparr>)"
  using assms
proof (induction ps arbitrary: bs t acc w mc)
  case Nil
  then have bs: "bs = []" by (cases bs) auto
  from Nil have pl: "search_payload mc t = search_payload m t" by (simp add: carried_payload)
  then have rq: "search_request mc t = search_request m t" by (simp add: search_request_def)
  have h: "http e (length (requests w)) (search_request m t) = bad"
    using Nil(5) bs by simp
  show ?case
  proof (cases bad)
    case TransportError
    then show ?thesis
      by (simp add: SearchLoop_unfold[OF Nil(2)] pl rq h Nil(1) Let_def fun_upd_def)
  next
    case (Response status body)
    then have "status \<noteq> 200 \<or> decode_search e body = None" using Nil(7) by simp
    then show ?thesis
      by (cases "status = 200")
        (auto simp add: SearchLoop_unfold[OF Nil(2)] pl rq h Nil(1) Let_def fun_upd_def Response)
  qed
next
  case (Cons q qs)
  then obtain b bs' where bs: "bs = b # bs'" "decode_search e b = Some q"
      "pages_of (decode_search e) bs' qs"
    by (cases bs) auto
  from Cons.prems have pl: "search_payload mc t = search_payload m t" by (simp add: carried_payload)
  then have rq: "search_request mc t = search_request m t" by (simp add: search_request_def)
  let ?w = "w\<lparr>heap := (heap w)(r \<mapsto> search_payload m t),
               requests := requests w @ [search_request m t]\<rparr>"
  have tq: "NextPageToken q \<noteq> []" using Cons.prems by simp
  have h: "http e (length (requests w)) (search_request m t) = Response 200 b"
    using Cons.prems(5) bs by simp
  have step: "SearchLoop e r t acc w = SearchLoop e r (NextPageToken q) (acc @ MediaItems q) ?w"
    by (simp add: SearchLoop_unfold[OF Cons.prems(2)] pl rq h bs tq Cons.prems(1))
  have m2: "marshal_ok (search_payload m (NextPageToken q))"
    using marshal_ok_search_payload[OF Cons.prems(1), of "NextPageToken q"] tq
    by (simp add: search_payload_again)
  have ih: "\<exists>err. SearchLoop e r (NextPageToken q) (acc @ MediaItems q) ?w =
     Some (Return ([], Some err),
           ?w\<lparr>heap := (heap ?w)(r \<mapsto> search_payload m (last (NextPageToken q # map NextPageToken qs))),
             requests := requests ?w @ map (search_request m) (NextPageToken q # map NextPageToken qs)\<rparr>)"
    apply (rule Cons.IH[OF m2 _ carried_next[OF tq] bs(3)])
    using Cons.prems bs by simp_all
  then obtain err where ih': "SearchLoop e r (NextPageToken q) (acc @ MediaItems q) ?w =
     Some (Return ([], Some err),
           ?w\<lparr>heap := (heap ?w)(r \<mapsto> search_payload m (last (NextPageToken q # map NextPageToken qs))),
             requests := requests ?w @ map (search_request m) (NextPageToken q # map NextPageToken qs)\<rparr>)"
    by blast
  show ?case unfolding step ih' by (simp cong: if_cong add: fun_upd_def)
qed

subsection \<open>Variant A\<close>

lemma getMediaItemsFromFirstPage_unfold:
  "getMediaItemsFromFirstPage e sid w =
     (case http e (length (requests w)) (list_request sid []) of
        TransportError \<Rightarrow>
          ((no_list, Some (Wrapped ''failed to get media items'' RequestError)),
           w\<lparr>requests := requests w @ [list_request sid []]\<rparr>)
      | Response status body \<Rightarrow>
          if status \<noteq> 200 then
            ((no_list, Some (FetchStatus status)),
             w\<lparr>requests := requests w @ [list_request sid []]\<rparr>)
          else (case decode_list e body of
                  None \<Rightarrow>
                    ((no_list,
                      Some (Wrapped ''failed to decode media items response'' DecodeError)),
                     w\<lparr>requests := requests w @ [list_request sid []]\<rparr>)
                | Some p \<Rightarrow> ((p, None), w\<lparr>requests := requests w @ [list_request sid []]\<rparr>)))"
  by (simp add: getMediaItemsFromFirstPage_def list_request_def send_def
      split: http_result.splits option.splits)

lemma getMediaItemsFromPageURL_unfold:
  "t \<noteq> [] \<Longrightarrow> getMediaItemsFromPageURL e sid t w =
     (case http e (length (requests w)) (list_request sid t) of
        TransportError \<Rightarrow>
          ((no_list, Some (Wrapped ''failed to get media items from page URL'' RequestError)),
           w\<lparr>requests := requests w @ [list_request sid t]\<rparr>)
      | Response status body \<Rightarrow>
          if status \<noteq> 200 then
            ((no_list, Some (FetchStatus status)),
             w\<lparr>requests := requests w @ [list_request sid t]\<rparr>)
          else (case decode_list e body of
                  None \<Rightarrow>
                    ((no_list,
                      Some (Wrapped ''failed to decode media items response'' DecodeError)),
                     w\<lparr>requests := requests w @ [list_request sid t]\<rparr>)
                | Some p \<Rightarrow> ((p, None), w\<lparr>requests := requests w @ [list_request sid t]\<rparr>)))"
  by (simp add: getMediaItemsFromPageURL_def list_request_def send_def
      split: http_result.splits option.splits)

lemma fetchLoop_run:
  assumes "t \<noteq> []"
    and "pages_of (decode_list e) bs (ps @ [p])"
    and "answers (http e) (length (requests w))
           (map (list_request sid) (t # map ListNextPageToken ps)) (map (Response 200) bs)"
    and "\<forall>q\<in>set ps. ListNextPageToken q \<noteq> []" "ListNextPageToken p = []"
  shows "fetchLoop e sid t items w =
     Some ((\<lparr>PickedItems = items @ concat (map ListMediaItems (ps @ [p]))\<rparr>, None),
           w\<lparr>requests := requests w @ map (list_request sid) (t # map ListNextPageToken ps)\<rparr>)"
  using assms
proof (induction ps arbitrary: bs t items w)
  case Nil
  then obtain b where bs: "bs = [b]" "decode_list e b = Some p"
    by (cases bs; cases "tl bs") auto
  have h: "http e (length (requests w)) (list_request sid t) = Response 200 b"
    using Nil(3) bs by simp
  show ?case
    apply (subst fetchLoop.simps)
    apply (simp add: getMediaItemsFromPageURL_unfold[OF Nil(1)] h bs Nil(1) Nil(5))
    apply (subst fetchLoop.simps)
    apply simp
    done
next
  case (Cons q qs)
  then obtain b bs' where bs: "bs = b # bs'" "decode_list e b = Some q"
      "pages_of (decode_list e) bs' (qs @ [p])"
    by (cases bs) auto
  let ?w = "w\<lparr>requests := requests w @ [list_request sid t]\<rparr>"
  have tq: "ListNextPageToken q \<noteq> []" using Cons.prems by simp
  have h: "http e (length (requests w)) (list_request sid t) = Response 200 b"
    using Cons.prems(3) bs by simp
  have step: "fetchLoop e sid t items w =
      fetchLoop e sid (ListNextPageToken q) (items @ ListMediaItems q) ?w"
    apply (subst fetchLoop.simps)
    apply (simp add: getMediaItemsFromPageURL_unfold[OF Cons.prems(1)] h bs Cons.prems(1))
    done
  have ih: "fetchLoop e sid (ListNextPageToken q) (items @ ListMediaItems q) ?w =
     Some ((\<lparr>PickedItems = (items @ ListMediaItems q) @ concat (map ListMediaItems (qs @ [p]))\<rparr>, None),
           ?w\<lparr>requests := requests ?w @ map (list_request sid) (ListNextPageToken q # map ListNextPageToken qs)\<rparr>)"
    apply (rule Cons.IH[OF tq bs(3)])
    using Cons.prems bs by simp_all
  show ?case unfolding step ih by simp
qed

lemma fetchSelectedMediaItems_run:
  assumes "pages_of (decode_list e) bs (ps @ [p])"
    and "answers (http e) (length (requests w))
           (map (list_request sid) ([] # map ListNextPageToken ps)) (map (Response 200) bs)"
    and "\<forall>q\<in>set ps. ListNextPageToken q \<noteq> []" "ListNextPageToken p = []"
  shows "fetchSelectedMediaItems e sid w =
     Some ((\<lparr>PickedItems = concat (map ListMediaItems (ps @ [p]))\<rparr>, None),
           w\<lparr>requests := requests w @ map (list_request sid) ([] # map ListNextPageToken ps)\<rparr>)"
proof (cases ps)
  case Nil
  with assms obtain b where bs: "bs = [b]" "decode_list e b = Some p"
    by (cases bs; cases "tl bs") auto
  have h: "http e (length (requests w)) (list_request sid []) = Response 200 b"
    using assms(2) bs Nil by simp
  show ?thesis
    apply (simp add: fetchSelectedMediaItems_def getMediaItemsFromFirstPage_unfold h bs assms(4) Nil)
    apply (subst fetchLoop.simps)
    apply simp
    done
next
  case (Cons q qs)
  with assms obtain b bs' where bs: "bs = b # bs'" "decode_list e b = Some q"
      "pages_of (decode_list e) bs' (qs @ [p])"
    by (cases bs) auto
  let ?w = "w\<lparr>requests := requests w @ [list_request sid []]\<rparr>"
  have tq: "ListNextPageToken q \<noteq> []" using assms(3) Cons by simp
  have h: "http e (length (requests w)) (list_request sid []) = Response 200 b"
    using assms(2) bs Cons by simp
  have step: "fetchSelectedMediaItems e sid w =
      fetchLoop e sid (ListNextPageToken q) (ListMediaItems q) ?w"
    by (simp add: fetchSelectedMediaItems_def getMediaItemsFromFirstPage_unfold h bs)
  have run: "fetchLoop e sid (ListNextPageToken q) (ListMediaItems q) ?w =
     Some ((\<lparr>PickedItems = ListMediaItems q @ concat (map ListMediaItems (qs @ [p]))\<rparr>, None),
           ?w\<lparr>requests := requests ?w @ map (list_request sid) (ListNextPageToken q # map ListNextPageToken qs)\<rparr>)"
    apply (rule fetchLoop_run[OF tq bs(3)])
    using assms bs Cons by simp_all
  show ?thesis unfolding step run by (simp add: Cons)
qed

lemma page_fetch_fails:
  assumes "failed_page (decode_list e) bad"
  shows "http e (length (requests w)) (list_request sid []) = bad \<Longrightarrow>
           \<exists>err. getMediaItemsFromFirstPage e sid w =
             ((no_list, Some err), w\<lparr>requests := requests w @ [list_request sid []]\<rparr>)"
    and "t \<noteq> [] \<Longrightarrow> http e (length (requests w)) (list_request sid t) = bad \<Longrightarrow>
           \<exists>err. getMediaItemsFromPageURL e sid t w =
             ((no_list, Some err), w\<lparr>requests := requests w @ [list_request sid t]\<rparr>)"
  using assms
  by (cases bad; auto simp add: getMediaItemsFromFirstPage_unfold getMediaItemsFromPageURL_unfold)+

lemma fetchLoop_fails:
  assumes "t \<noteq> []"
    and "pages_of (decode_list e) bs ps"
    and "answers (http e) (length (requests w))
           (map (list_request sid) (t # map ListNextPageToken ps)) (map (Response 200) bs @ [bad])"
    and "\<forall>q\<in>set ps. ListNextPageToken q \<noteq> []" "failed_page (decode_list e) bad"
  shows "\<exists>err. fetchLoop e sid t items w =
     Some ((no_items, Some err),
           w\<lparr>requests := requests w @ map (list_request sid) (t # map ListNextPageToken ps)\<rparr>)"
  using assms
proof (induction ps arbitrary: bs t items w)
  case Nil
  then have bs: "bs = []" by (cases bs) auto
  have h: "http e (length (requests w)) (list_request sid t) = bad"
    using Nil(3) bs by simp
  from page_fetch_fails(2)[OF Nil(5) Nil(1) h] obtain err where
    "getMediaItemsFromPageURL e sid t w =
       ((no_list, Some err), w\<lparr>requests := requests w @ [list_request sid t]\<rparr>)" by blast
  then show ?case
    by (subst fetchLoop.simps) (simp add: Nil(1))
next
  case (Cons q qs)
  then obtain b bs' where bs: "bs = b # bs'" "decode_list e b = Some q"
      "pages_of (decode_list e) bs' qs"
    by (cases bs) auto
  let ?w = "w\<lparr>requests := requests w @ [list_request sid t]\<rparr>"
  have tq: "ListNextPageToken q \<noteq> []" using Cons.prems by simp
  have h: "http e (length (requests w)) (list_request sid t) = Response 200 b"
    using Cons.prems(3) bs by simp
  have step: "fetchLoop e sid t items w =
      fetchLoop e sid (ListNextPageToken q) (items @ ListMediaItems q) ?w"
    apply (subst fetchLoop.simps)
    apply (simp add: getMediaItemsFromPageURL_unfold[OF Cons.prems(1)] h bs Cons.prems(1))
    done
  have "\<exists>err. fetchLoop e sid (ListNextPageToken q) (items @ ListMediaItems q) ?w =
     Some ((no_items, Some err),
           ?w\<lparr>requests := requests ?w @ map (list_request sid) (ListNextPageToken q # map ListNextPageToken qs)\<rparr>)"
    apply (rule Cons.IH[OF tq bs(3)])
    using Cons.prems bs by simp_all
  then show ?case unfolding step by simp
qed

lemma fetchSelectedMediaItems_fails:
  assumes "pages_of (decode_list e) bs ps"
    and "answers (http e) (length (requests w))
           (map (list_request sid) ([] # map ListNextPageToken ps)) (map (Response 200) bs @ [bad])"
    and "\<forall>q\<in>set ps. ListNextPageToken q \<noteq> []" "failed_page (decode_list e) bad"
  shows "\<exists>err. fetchSelectedMediaItems e sid w =
     Some ((no_items, Some err),
           w\<lparr>requests := requests w @ map (list_request sid) ([] # map ListNextPageToken ps)\<rparr>)"
proof (cases ps)
  case Nil
  with assms have bs: "bs = []" by (cases bs) auto
  have h: "http e (length (requests w)) (list_request sid []) = bad"
    using assms(2) bs Nil by simp
  from page_fetch_fails(1)[OF assms(4) h] obtain err where
    "getMediaItemsFromFirstPage e sid w =
       ((no_list, Some err), w\<lparr>requests := requests w @ [list_request sid []]\<rparr>)" by blast
  then show ?thesis
    by (simp add: fetchSelectedMediaItems_def Nil)
next
  case (Cons q qs)
  with assms obtain b bs' where bs: "bs = b # bs'" "decode_list e b = Some q"
      "pages_of (decode_list e) bs' qs"
    by (cases bs) auto
  let ?w = "w\<lparr>requests := requests w @ [list_request sid []]\<rparr>"
  have tq: "ListNextPageToken q \<noteq> []" using assms(3) Cons by simp
  have h: "http e (length (requests w)) (list_request sid []) = Response 200 b"
    using assms(2) bs Cons by simp
  have step: "fetchSelectedMediaItems e sid w =
      fetchLoop e sid (ListNextPageToken q) (ListMediaItems q) ?w"
    by (simp add: fetchSelectedMediaItems_def getMediaItemsFromFirstPage_unfold h bs)
  have "\<exists>err. fetchLoop e sid (ListNextPageToken q) (ListMediaItems q) ?w =
     Some ((no_items, Some err),
           ?w\<lparr>requests := requests ?w @ map (list_request sid) (ListNextPageToken q # map ListNextPageToken qs)\<rparr>)"
    apply (rule fetchLoop_fails[OF tq bs(3)])
    using assms bs Cons by simp_all
  then show ?thesis unfolding step by (simp add: Cons)
qed

text \<open>Invariants of every run that returns.\<close>

lemma SearchLoop_asks_100:
  assumes "SearchLoop e r t acc w = Some y"
  shows "\<exists>new. requests (snd y) = requests w @ new \<and> list_all asks_page_size_100 new"
proof (rule SearchLoop.raw_induct[where P = "\<lambda>e r t acc w y.
         \<exists>new. requests (snd y) = requests w @ new \<and> list_all asks_page_size_100 new",
       OF _ assms], goal_cases)
  case (1 f e r t acc w y)
  show ?case
  proof (cases "heap w r")
    case None
    with 1(2) show ?thesis by auto
  next
    case (Some m)
    have ask: "asks_page_size_100 (search_request m t)"
      by (simp add: search_request_def search_payload_page_size)
    let ?w1 = "w\<lparr>heap := (heap w)(r \<mapsto> search_payload m t)\<rparr>"
    let ?w2 = "?w1\<lparr>requests := requests w @ [search_request m t]\<rparr>"
    from 1(2) Some have
      "y = (Return ([], Some (Wrapped ''error marshaling payload'' MarshalError)), ?w1)
       \<or> (\<exists>res. y = (res, ?w2))
       \<or> (\<exists>t' acc'. f e r t' acc' ?w2 = Some y)"
      by (auto simp add: search_payload_def search_request_def send_def Let_def
          split: if_splits http_result.splits option.splits)
    then show ?thesis
    proof (elim disjE exE)
      assume "y = (Return ([], Some (Wrapped ''error marshaling payload'' MarshalError)), ?w1)"
      then show ?thesis by simp
    next
      fix res assume "y = (res, ?w2)"
      then show ?thesis using ask by simp
    next
      fix t' acc' assume "f e r t' acc' ?w2 = Some y"
      from 1(1)[OF this] obtain new where
        "requests (snd y) = requests ?w2 @ new" "list_all asks_page_size_100 new" by blast
      then show ?thesis using ask by simp
    qed
  qed
qed

lemma SearchLoop_leaves:
  assumes "SearchLoop e r t acc w = Some y"
  shows "\<forall>mc. heap w r = Some mc \<longrightarrow> t \<noteq> [] \<longrightarrow> marshal_ok mc \<longrightarrow>
           (\<exists>x. fst y = Return x) \<and>
           (\<exists>t'. t' \<noteq> [] \<and> heap (snd y) r = Some (search_payload mc t')) \<and>
           Suc (length (requests w)) \<le> length (requests (snd y))"
proof (rule SearchLoop.raw_induct[where P = "\<lambda>e r t acc w y.
         \<forall>mc. heap w r = Some mc \<longrightarrow> t \<noteq> [] \<longrightarrow> marshal_ok mc \<longrightarrow>
           (\<exists>x. fst y = Return x) \<and>
           (\<exists>t'. t' \<noteq> [] \<and> heap (snd y) r = Some (search_payload mc t')) \<and>
           Suc (length (requests w)) \<le> length (requests (snd y))",
       OF _ assms], goal_cases)
  case (1 f e r t acc w y)
  show ?case
  proof (intro allI impI)
    fix mc assume mc: "heap w r = Some mc" and t: "t \<noteq> []" and ok: "marshal_ok mc"
    let ?w2 = "w\<lparr>heap := (heap w)(r \<mapsto> search_payload mc t),
                  requests := requests w @ [search_request mc t]\<rparr>"
    have ok2: "marshal_ok (search_payload mc t)" by (rule marshal_ok_search_payload[OF ok])
    from 1(2) mc ok2 t have
      "(\<exists>x. y = (Return x, ?w2)) \<or> (\<exists>t' acc'. t' \<noteq> [] \<and> f e r t' acc' ?w2 = Some y)"
      by (auto simp add: search_payload_def search_request_def send_def Let_def
          split: if_splits http_result.splits option.splits)
    then show "(\<exists>x. fst y = Return x) \<and>
           (\<exists>t'. t' \<noteq> [] \<and> heap (snd y) r = Some (search_payload mc t')) \<and>
           Suc (length (requests w)) \<le> length (requests (snd y))"
    proof (elim disjE exE conjE)
      fix x assume "y = (Return x, ?w2)"
      then show ?thesis using t by auto
    next
      fix t' acc' assume t': "t' \<noteq> []" and run: "f e r t' acc' ?w2 = Some y"
      have "heap ?w2 r = Some (search_payload mc t)" by simp
      with 1(1)[OF run] t' ok2 have
        "(\<exists>x. fst y = Return x) \<and>
         (\<exists>s. s \<noteq> [] \<and> heap (snd y) r = Some (search_payload (search_payload mc t) s)) \<and>
         Suc (length (requests ?w2)) \<le> length (requests (snd y))" by blast
      then show ?thesis by (auto simp add: search_payload_again)
    qed
  qed
qed

lemma SearchMediaItems_leaves:
  assumes "SearchMediaItems e r w = Some (res, w')" "heap w r = Some m"
  shows "(\<exists>x. res = Return x) \<and>
         (\<exists>t. heap w' r = Some (search_payload m t) \<and>
              (t \<noteq> [] \<longleftrightarrow> length (requests w) + 2 \<le> length (requests w')))"
proof -
  let ?w1 = "w\<lparr>heap := (heap w)(r \<mapsto> search_payload m [])\<rparr>"
  let ?w2 = "?w1\<lparr>requests := requests w @ [search_request m []]\<rparr>"
  from assms have
    "(\<exists>x. res = Return x \<and> w' \<in> {?w1, ?w2})
     \<or> (marshal_ok (search_payload m []) \<and>
        (\<exists>t' acc'. t' \<noteq> [] \<and> SearchLoop e r t' acc' ?w2 = Some (res, w')))"
    unfolding SearchMediaItems_def
    by (auto simp add: SearchLoop_unfold[OF assms(2)] Let_def
        split: if_splits http_result.splits option.splits)
  then show ?thesis
  proof (elim disjE exE conjE)
    fix x assume "res = Return x" "w' \<in> {?w1, ?w2}"
    then have "heap w' r = Some (search_payload m []) \<and>
               \<not> length (requests w) + 2 \<le> length (requests w')" by auto
    then show ?thesis using \<open>res = Return x\<close> by blast
  next
    fix t' acc' assume ok: "marshal_ok (search_payload m [])" and t': "t' \<noteq> []"
      and run: "SearchLoop e r t' acc' ?w2 = Some (res, w')"
    have "heap ?w2 r = Some (search_payload m [])" by simp
    with SearchLoop_leaves[OF run] t' ok have
      "(\<exists>x. res = Return x) \<and>
       (\<exists>s. s \<noteq> [] \<and> heap w' r = Some (search_payload (search_payload m []) s)) \<and>
       Suc (length (requests ?w2)) \<le> length (requests w')" by fastforce
    then show ?thesis by (auto simp add: search_payload_again)
  qed
qed

subsection \<open>Polling\<close>


subsection \<open>The download loops\<close>

lemma download_reports:
  "download e url name folder w = (r, w') \<Longrightarrow>
     stdout w' = stdout w @ (case r of None \<Rightarrow> [if files w (path_join e folder name) = None
                                              then Downloaded name else AlreadyExists name]
                             | Some err \<Rightarrow> [])"
  by (auto simp add: download_def os_Stat_def send_def Let_def
      split: http_result.splits option.splits if_splits)

lemma downloadLoopA_reports:
  "map reported (stdout (downloadLoopA e items folder w)) =
     map reported (stdout w) @ map (\<lambda>i. FileFilename (MediaFile i)) items"
proof (induction items arbitrary: w)
  case Nil
  then show ?case by simp
next
  case (Cons item rest)
  obtain r w1 where d: "DownloadMediaItem_A e (MediaFile item) folder w = (r, w1)"
    by (cases "DownloadMediaItem_A e (MediaFile item) folder w")
  from download_reports[OF d[unfolded DownloadMediaItem_A_def]]
  show ?case using d by (cases r) (simp_all add: Cons.IH)
qed

lemma main_download_reports:
  "map reported (stdout (main_download e items folder w)) =
     map reported (stdout w) @ map Filename items"
proof (induction items arbitrary: w)
  case Nil
  then show ?case by simp
next
  case (Cons item rest)
  obtain r w1 where d: "DownloadMediaItem e item folder w = (r, w1)"
    by (cases "DownloadMediaItem e item folder w")
  from download_reports[OF d[unfolded DownloadMediaItem_def]]
  show ?case using d by (cases r) (simp_all add: Cons.IH)
qed

lemma downloadLoopA_append:
  "downloadLoopA e (xs @ ys) folder w = downloadLoopA e ys folder (downloadLoopA e xs folder w)"
  by (induction xs arbitrary: w) (auto split: prod.splits option.splits)

lemma main_download_append:
  "main_download e (xs @ ys) folder w = main_download e ys folder (main_download e xs folder w)"
  by (induction xs arbitrary: w) (auto split: prod.splits option.splits)

section \<open>The downloader: existence check, fetch and failure\<close>

lemma download_exists:
  "\<not> inaccessible e (path_join e folder name) \<Longrightarrow> files w (path_join e folder name) = Some c \<Longrightarrow>
   download e url name folder w = (None, w\<lparr>stdout := stdout w @ [AlreadyExists name]\<rparr>)"
  by (simp add: download_def os_Stat_def)

lemma download_requests:
  "\<not> inaccessible e (path_join e folder name) \<Longrightarrow> files w (path_join e folder name) = None \<Longrightarrow>
   requests (snd (download e url name folder w)) = requests w @ [GET (url @ ''=d'') []]"
  by (simp add: download_def os_Stat_def send_def Let_def split: http_result.splits option.splits)

lemma download_streams:
  "\<not> inaccessible e (path_join e folder name) \<Longrightarrow> files w (path_join e folder name) = None \<Longrightarrow>
   http e (length (requests w)) (GET (url @ ''=d'') []) = Response 200 body \<Longrightarrow>
   \<not> create_err e (path_join e folder name) \<Longrightarrow> copy_fail e (path_join e folder name) = None \<Longrightarrow>
   download e url name folder w =
     (None, w\<lparr>requests := requests w @ [GET (url @ ''=d'') []],
              files := (files w)(path_join e folder name \<mapsto> body),
              stdout := stdout w @ [Downloaded name]\<rparr>)"
  by (simp add: download_def os_Stat_def send_def Let_def)

text \<open>
  C1. When the existence check finds the file, \<^verbatim>\<open>DownloadMediaItem\<close> returns success and
  neither the request log nor the files change. When the check reports that the file is
  absent, it issues exactly one request, a GET to the base URL followed by \<open>=d\<close>; and
  when that request is answered with status 200 and the file can be created and copied
  to, it returns success with the response bytes in the file at
  \<open>path_join folder Filename\<close>. The same holds for the picker variant.
\<close>

theorem DownloadMediaItem_skips_or_streams:
  "(\<not> inaccessible e (path_join e folder (Filename item)) \<and>
    files w (path_join e folder (Filename item)) = Some c \<longrightarrow>
      fst (DownloadMediaItem e item folder w) = None \<and>
      requests (snd (DownloadMediaItem e item folder w)) = requests w \<and>
      files (snd (DownloadMediaItem e item folder w)) = files w) \<and>
   (\<not> inaccessible e (path_join e folder (Filename item)) \<and>
    files w (path_join e folder (Filename item)) = None \<longrightarrow>
      requests (snd (DownloadMediaItem e item folder w)) =
        requests w @ [GET (BaseUrl item @ ''=d'') []]) \<and>
   (\<not> inaccessible e (path_join e folder (Filename item)) \<and>
    files w (path_join e folder (Filename item)) = None \<and>
    http e (length (requests w)) (GET (BaseUrl item @ ''=d'') []) = Response 200 body \<and>
    \<not> create_err e (path_join e folder (Filename item)) \<and>
    copy_fail e (path_join e folder (Filename item)) = None \<longrightarrow>
      fst (DownloadMediaItem e item folder w) = None \<and>
      files (snd (DownloadMediaItem e item folder w)) =
        (files w)(path_join e folder (Filename item) \<mapsto> body)) \<and>
   (\<not> inaccessible e (path_join e folder (FileFilename f)) \<and>
    files w (path_join e folder (FileFilename f)) = Some c \<longrightarrow>
      fst (DownloadMediaItem_A e f folder w) = None \<and>
      requests (snd (DownloadMediaItem_A e f folder w)) = requests w \<and>
      files (snd (DownloadMediaItem_A e f folder w)) = files w) \<and>
   (\<not> inaccessible e (path_join e folder (FileFilename f)) \<and>
    files w (path_join e folder (FileFilename f)) = None \<longrightarrow>
      requests (snd (DownloadMediaItem_A e f folder w)) =
        requests w @ [GET (FileBaseUrl f @ ''=d'') []]) \<and>
   (\<not> inaccessible e (path_join e folder (FileFilename f)) \<and>
    files w (path_join e folder (FileFilename f)) = None \<and>
    http e (length (requests w)) (GET (FileBaseUrl f @ ''=d'') []) = Response 200 body \<and>
    \<not> create_err e (path_join e folder (FileFilename f)) \<and>
    copy_fail e (path_join e folder (FileFilename f)) = None \<longrightarrow>
      fst (DownloadMediaItem_A e f folder w) = None \<and>
      files (snd (DownloadMediaItem_A e f folder w)) =
        (files w)(path_join e folder (FileFilename f) \<mapsto> body))"
  unfolding DownloadMediaItem_def DownloadMediaItem_A_def
  by (simp add: download_exists download_requests download_streams)

lemma demo_get_sunset:
  "http demo_env 0 (GET ''https://lh3/sunset=d'' []) = Response 200 [1, 2, 3]"
  by (simp add: demo_env_def demo_server_def)

theorem DownloadMediaItem_skips_or_streams_witness:
  "fst (DownloadMediaItem demo_env sunset ''photos'' empty_world) = None \<and>
   requests (snd (DownloadMediaItem demo_env sunset ''photos'' empty_world)) =
     [GET ''https://lh3/sunset=d'' []] \<and>
   files (snd (DownloadMediaItem demo_env sunset ''photos'' empty_world)) =
     [''photos/sunset.jpg'' \<mapsto> [1, 2, 3]] \<and>
   fst (DownloadMediaItem_A demo_env sunset_file ''photos''
         (empty_world\<lparr>files := [''photos/sunset.jpg'' \<mapsto> [4]]\<rparr>)) = None \<and>
   requests (snd (DownloadMediaItem_A demo_env sunset_file ''photos''
         (empty_world\<lparr>files := [''photos/sunset.jpg'' \<mapsto> [4]]\<rparr>))) = []"
  using DownloadMediaItem_skips_or_streams
          [of demo_env "''photos''" sunset empty_world "[4]" "[1, 2, 3]" sunset_file]
        DownloadMediaItem_skips_or_streams
          [of demo_env "''photos''" sunset "empty_world\<lparr>files := [''photos/sunset.jpg'' \<mapsto> [4]]\<rparr>"
              "[4]" "[1, 2, 3]" sunset_file]
        demo_get_sunset
  by (simp add: demo_env_def sunset_def sunset_file_def empty_world_def join_slash_def)

lemma download_stat_fails:
  "inaccessible e (path_join e folder name) \<Longrightarrow>
   download e url name folder w = (Some StatError, w)"
  by (simp add: download_def os_Stat_def)

lemma download_get_fails:
  "\<not> inaccessible e (path_join e folder name) \<Longrightarrow> files w (path_join e folder name) = None \<Longrightarrow>
   http e (length (requests w)) (GET (url @ ''=d'') []) = TransportError \<Longrightarrow>
   download e url name folder w =
     (Some RequestError, w\<lparr>requests := requests w @ [GET (url @ ''=d'') []]\<rparr>)"
  by (simp add: download_def os_Stat_def send_def)

lemma download_status_fails:
  "\<not> inaccessible e (path_join e folder name) \<Longrightarrow> files w (path_join e folder name) = None \<Longrightarrow>
   http e (length (requests w)) (GET (url @ ''=d'') []) = Response status body \<Longrightarrow>
   status \<noteq> 200 \<Longrightarrow>
   download e url name folder w =
     (Some (DownloadStatus name status), w\<lparr>requests := requests w @ [GET (url @ ''=d'') []]\<rparr>)"
  by (simp add: download_def os_Stat_def send_def)

lemma download_partial:
  "download e url name folder w = (Some err, w') \<Longrightarrow> files w' \<noteq> files w \<Longrightarrow>
   err = CopyError \<and>
   (\<exists>status body k.
      http e (length (requests w)) (GET (url @ ''=d'') []) = Response status body \<and>
      status = 200 \<and> copy_fail e (path_join e folder name) = Some k \<and>
      files w' = (files w)(path_join e folder name \<mapsto> take k body))"
  by (auto simp add: download_def os_Stat_def send_def Let_def
      split: http_result.splits option.splits if_splits)

text \<open>
  C9. When the existence check fails for a reason other than absence, when the GET
  fails, and when the response status is not 200, \<^verbatim>\<open>DownloadMediaItem\<close> returns the
  error and the files are as they were. Whenever it returns an error and the files have
  changed, the error is the copy's: the status was 200 and the target file holds the
  bytes copied before the copy broke off. The same holds for the picker variant.
\<close>

theorem DownloadMediaItem_early_failure_keeps_files:
  "(inaccessible e (path_join e folder (Filename item)) \<longrightarrow>
      DownloadMediaItem e item folder w = (Some StatError, w)) \<and>
   (\<not> inaccessible e (path_join e folder (Filename item)) \<and>
    files w (path_join e folder (Filename item)) = None \<and>
    http e (length (requests w)) (GET (BaseUrl item @ ''=d'') []) = TransportError \<longrightarrow>
      fst (DownloadMediaItem e item folder w) = Some RequestError \<and>
      files (snd (DownloadMediaItem e item folder w)) = files w) \<and>
   (\<not> inaccessible e (path_join e folder (Filename item)) \<and>
    files w (path_join e folder (Filename item)) = None \<and>
    http e (length (requests w)) (GET (BaseUrl item @ ''=d'') []) = Response status body \<and>
    status \<noteq> 200 \<longrightarrow>
      fst (DownloadMediaItem e item folder w) = Some (DownloadStatus (Filename item) status) \<and>
      files (snd (DownloadMediaItem e item folder w)) = files w) \<and>
   (DownloadMediaItem e item folder w = (Some err, w') \<and> files w' \<noteq> files w \<longrightarrow>
      err = CopyError \<and>
      (case (http e (length (requests w)) (GET (BaseUrl item @ ''=d'') []),
             copy_fail e (path_join e folder (Filename item))) of
         (Response s bs, Some k) \<Rightarrow>
           s = 200 \<and> files w' = (files w)(path_join e folder (Filename item) \<mapsto> take k bs)
       | _ \<Rightarrow> False)) \<and>
   (inaccessible e (path_join e folder (FileFilename f)) \<longrightarrow>
      DownloadMediaItem_A e f folder w = (Some StatError, w)) \<and>
   (\<not> inaccessible e (path_join e folder (FileFilename f)) \<and>
    files w (path_join e folder (FileFilename f)) = None \<and>
    http e (length (requests w)) (GET (FileBaseUrl f @ ''=d'') []) = TransportError \<longrightarrow>
      fst (DownloadMediaItem_A e f folder w) = Some RequestError \<and>
      files (snd (DownloadMediaItem_A e f folder w)) = files w) \<and>
   (\<not> inaccessible e (path_join e folder (FileFilename f)) \<and>
    files w (path_join e folder (FileFilename f)) = None \<and>
    http e (length (requests w)) (GET (FileBaseUrl f @ ''=d'') []) = Response status body \<and>
    status \<noteq> 200 \<longrightarrow>
      fst (DownloadMediaItem_A e f folder w) = Some (DownloadStatus (FileFilename f) status) \<and>
      files (snd (DownloadMediaItem_A e f folder w)) = files w) \<and>
   (DownloadMediaItem_A e f folder w = (Some err, w') \<and> files w' \<noteq> files w \<longrightarrow>
      err = CopyError \<and>
      (case (http e (length (requests w)) (GET (FileBaseUrl f @ ''=d'') []),
             copy_fail e (path_join e folder (FileFilename f))) of
         (Response s bs, Some k) \<Rightarrow>
           s = 200 \<and> files w' = (files w)(path_join e folder (FileFilename f) \<mapsto> take k bs)
       | _ \<Rightarrow> False))"
proof -
  have copy: "\<And>url name. download e url name folder w = (Some err, w') \<and> files w' \<noteq> files w \<longrightarrow>
      err = CopyError \<and>
      (case (http e (length (requests w)) (GET (url @ ''=d'') []),
             copy_fail e (path_join e folder name)) of
         (Response s bs, Some k) \<Rightarrow>
           s = 200 \<and> files w' = (files w)(path_join e folder name \<mapsto> take k bs)
       | _ \<Rightarrow> False)"
    using download_partial[of e _ _ folder w err w'] by fastforce
  show ?thesis
    unfolding DownloadMediaItem_def DownloadMediaItem_A_def
    using copy[of "BaseUrl item" "Filename item"] copy[of "FileBaseUrl f" "FileFilename f"]
    by (simp add: download_stat_fails download_get_fails download_status_fails)
qed

lemma demo_get_gone: "http demo_env 0 (GET ''https://lh3/gone=d'' []) = Response 404 []"
  by (simp add: demo_env_def demo_server_def mediaItemsURL_def sessionURL_def)

lemma demo_copy_breaks:
  "DownloadMediaItem_A demo_env sunset_file ''full'' empty_world =
     (Some CopyError,
      empty_world\<lparr>requests := [GET ''https://lh3/sunset=d'' []],
                  files := [''full/sunset.jpg'' \<mapsto> [1, 2]]\<rparr>)"
  by (simp add: DownloadMediaItem_A_def download_def os_Stat_def send_def demo_env_def
      demo_server_def sunset_file_def empty_world_def join_slash_def)

theorem DownloadMediaItem_early_failure_keeps_files_witness:
  "DownloadMediaItem demo_env sunset ''locked'' empty_world = (Some StatError, empty_world) \<and>
   fst (DownloadMediaItem demo_env gone ''photos'' empty_world) =
     Some (DownloadStatus ''gone.jpg'' 404) \<and>
   files (snd (DownloadMediaItem demo_env gone ''photos'' empty_world)) = Map.empty \<and>
   DownloadMediaItem_A demo_env sunset_file ''full'' empty_world =
     (Some CopyError,
      empty_world\<lparr>requests := [GET ''https://lh3/sunset=d'' []],
                  files := [''full/sunset.jpg'' \<mapsto> [1, 2]]\<rparr>) \<and>
   (case (http demo_env 0 (GET ''https://lh3/sunset=d'' []),
          copy_fail demo_env ''full/sunset.jpg'') of
      (Response s bs, Some k) \<Rightarrow> s = 200 \<and> take k bs = [1, 2]
    | _ \<Rightarrow> False)"
  using DownloadMediaItem_early_failure_keeps_files
          [of demo_env "''locked''" sunset empty_world 404 "[]" CopyError empty_world sunset_file]
        DownloadMediaItem_early_failure_keeps_files
          [of demo_env "''photos''" gone empty_world 404 "[]" CopyError empty_world sunset_file]
        DownloadMediaItem_early_failure_keeps_files
          [of demo_env "''full''" gone empty_world 404 "[]" CopyError
              "empty_world\<lparr>requests := [GET ''https://lh3/sunset=d'' []],
                  files := [''full/sunset.jpg'' \<mapsto> [1, 2]]\<rparr>" sunset_file]
        demo_get_gone demo_copy_breaks
  by (simp add: demo_env_def demo_server_def sunset_def gone_def sunset_file_def
      empty_world_def join_slash_def)

section \<open>The downloader: running it again\<close>








section \<open>The download loops\<close>

lemma download_keeps:
  "files w p \<noteq> None \<Longrightarrow> files (snd (download e url name folder w)) p \<noteq> None"
  "l \<in> set (stdout w) \<Longrightarrow> l \<in> set (stdout (snd (download e url name folder w)))"
  "\<exists>new. requests (snd (download e url name folder w)) = requests w @ new"
  by (auto simp add: download_def os_Stat_def send_def Let_def
      split: http_result.splits option.splits if_splits)

lemma download_success_present:
  "download e url name folder w = (None, w1) \<Longrightarrow> files w1 (path_join e folder name) \<noteq> None"
  by (auto simp add: download_def os_Stat_def send_def Let_def
      split: http_result.splits option.splits if_splits)

lemma download_fetches:
  "\<not> inaccessible e (path_join e folder name) \<Longrightarrow> files w (path_join e folder name) = None \<Longrightarrow>
   requests (snd (download e url name folder w)) = requests w @ [GET (url @ ''=d'') []]"
  by (simp add: download_def os_Stat_def send_def Let_def split: http_result.splits option.splits)

lemma main_download_keeps_files:
  "files w p \<noteq> None \<Longrightarrow> files (main_download e items folder w) p \<noteq> None"
proof (induction items arbitrary: w)
  case Nil
  then show ?case by simp
next
  case (Cons item rest)
  obtain r w1 where d: "DownloadMediaItem e item folder w = (r, w1)"
    by (cases "DownloadMediaItem e item folder w")
  then have w1: "w1 = snd (download e (BaseUrl item) (Filename item) folder w)"
    by (simp add: DownloadMediaItem_def)
  have "files w1 p \<noteq> None"
    unfolding w1 using download_keeps(1)[OF Cons.prems] by blast
  then show ?case using d by (cases r) (simp_all add: Cons.IH)
qed

lemma main_download_keeps_lines:
  "l \<in> set (stdout w) \<Longrightarrow> l \<in> set (stdout (main_download e items folder w))"
proof (induction items arbitrary: w)
  case Nil
  then show ?case by simp
next
  case (Cons item rest)
  obtain r w1 where d: "DownloadMediaItem e item folder w = (r, w1)"
    by (cases "DownloadMediaItem e item folder w")
  then have w1: "w1 = snd (download e (BaseUrl item) (Filename item) folder w)"
    by (simp add: DownloadMediaItem_def)
  have "l \<in> set (stdout w1)"
    unfolding w1 using download_keeps(2)[OF Cons.prems] by blast
  then show ?case using d by (cases r) (simp_all add: Cons.IH)
qed

lemma main_download_extends_requests:
  "\<exists>new. requests (main_download e items folder w) = requests w @ new"
proof (induction items arbitrary: w)
  case Nil
  then show ?case by simp
next
  case (Cons item rest)
  obtain r w1 where d: "DownloadMediaItem e item folder w = (r, w1)"
    by (cases "DownloadMediaItem e item folder w")
  then have w1: "w1 = snd (download e (BaseUrl item) (Filename item) folder w)"
    by (simp add: DownloadMediaItem_def)
  obtain new where n: "requests w1 = requests w @ new"
    unfolding w1 using download_keeps(3) by blast
  show ?case
  proof (cases r)
    case None
    from Cons.IH[of w1] obtain more where
      "requests (main_download e rest folder w1) = requests w1 @ more" by blast
    with n d None show ?thesis by simp
  next
    case (Some err)
    from Cons.IH[of "w1\<lparr>stdout := stdout w1 @ [ErrorDownloading (Filename item) err]\<rparr>"]
    obtain more where
      "requests (main_download e rest folder
         (w1\<lparr>stdout := stdout w1 @ [ErrorDownloading (Filename item) err]\<rparr>)) =
       requests w1 @ more" by auto
    with n d Some show ?thesis by simp
  qed
qed

lemma downloadLoopA_keeps_files:
  "files w p \<noteq> None \<Longrightarrow> files (downloadLoopA e items folder w) p \<noteq> None"
proof (induction items arbitrary: w)
  case Nil
  then show ?case by simp
next
  case (Cons item rest)
  obtain r w1 where d: "DownloadMediaItem_A e (MediaFile item) folder w = (r, w1)"
    by (cases "DownloadMediaItem_A e (MediaFile item) folder w")
  then have w1: "w1 = snd (download e (FileBaseUrl (MediaFile item)) (FileFilename (MediaFile item)) folder w)"
    by (simp add: DownloadMediaItem_A_def)
  have "files w1 p \<noteq> None"
    unfolding w1 using download_keeps(1)[OF Cons.prems] by blast
  then show ?case using d by (cases r) (simp_all add: Cons.IH)
qed

lemma downloadLoopA_keeps_lines:
  "l \<in> set (stdout w) \<Longrightarrow> l \<in> set (stdout (downloadLoopA e items folder w))"
proof (induction items arbitrary: w)
  case Nil
  then show ?case by simp
next
  case (Cons item rest)
  obtain r w1 where d: "DownloadMediaItem_A e (MediaFile item) folder w = (r, w1)"
    by (cases "DownloadMediaItem_A e (MediaFile item) folder w")
  then have w1: "w1 = snd (download e (FileBaseUrl (MediaFile item)) (FileFilename (MediaFile item)) folder w)"
    by (simp add: DownloadMediaItem_A_def)
  have "l \<in> set (stdout w1)"
    unfolding w1 using download_keeps(2)[OF Cons.prems] by blast
  then show ?case using d by (cases r) (simp_all add: Cons.IH)
qed

lemma downloadLoopA_extends_requests:
  "\<exists>new. requests (downloadLoopA e items folder w) = requests w @ new"
proof (induction items arbitrary: w)
  case Nil
  then show ?case by simp
next
  case (Cons item rest)
  obtain r w1 where d: "DownloadMediaItem_A e (MediaFile item) folder w = (r, w1)"
    by (cases "DownloadMediaItem_A e (MediaFile item) folder w")
  then have w1: "w1 = snd (download e (FileBaseUrl (MediaFile item)) (FileFilename (MediaFile item)) folder w)"
    by (simp add: DownloadMediaItem_A_def)
  obtain new where n: "requests w1 = requests w @ new"
    unfolding w1 using download_keeps(3) by blast
  show ?case
  proof (cases r)
    case None
    from Cons.IH[of w1] obtain more where
      "requests (downloadLoopA e rest folder w1) = requests w1 @ more" by blast
    with n d None show ?thesis by simp
  next
    case (Some err)
    from Cons.IH[of "w1\<lparr>stdout := stdout w1 @ [ErrorDownloading (FileFilename (MediaFile item)) err]\<rparr>"]
    obtain more where
      "requests (downloadLoopA e rest folder
         (w1\<lparr>stdout := stdout w1 @ [ErrorDownloading (FileFilename (MediaFile item)) err]\<rparr>)) =
       requests w1 @ more" by auto
    with n d Some show ?thesis by simp
  qed
qed

lemma main_download_settles:
  "x \<in> set items \<Longrightarrow>
   files (main_download e items folder w) (path_join e folder (Filename x)) \<noteq> None \<or>
   (\<exists>err. ErrorDownloading (Filename x) err \<in> set (stdout (main_download e items folder w)))"
proof (induction items arbitrary: w)
  case Nil
  then show ?case by simp
next
  case (Cons item rest)
  obtain r w1 where d: "DownloadMediaItem e item folder w = (r, w1)"
    by (cases "DownloadMediaItem e item folder w")
  show ?case
  proof (cases "x = item")
    case True
    show ?thesis
    proof (cases r)
      case None
      with d have "files w1 (path_join e folder (Filename x)) \<noteq> None"
        using download_success_present[of e "BaseUrl item" "Filename item" folder w w1] True
        by (simp add: DownloadMediaItem_def)
      from main_download_keeps_files[OF this, of e rest folder] d None show ?thesis by simp
    next
      case (Some err)
      let ?w = "w1\<lparr>stdout := stdout w1 @ [ErrorDownloading (Filename item) err]\<rparr>"
      have "ErrorDownloading (Filename x) err \<in> set (stdout ?w)" using True by simp
      from main_download_keeps_lines[OF this, of e rest folder] d Some show ?thesis by auto
    qed
  next
    case False
    with Cons.prems have "x \<in> set rest" by simp
    from Cons.IH[OF this] d show ?thesis by (cases r) simp_all
  qed
qed

lemma downloadLoopA_settles:
  "x \<in> set items \<Longrightarrow>
   files (downloadLoopA e items folder w) (path_join e folder (FileFilename (MediaFile x))) \<noteq> None \<or>
   (\<exists>err. ErrorDownloading (FileFilename (MediaFile x)) err
            \<in> set (stdout (downloadLoopA e items folder w)))"
proof (induction items arbitrary: w)
  case Nil
  then show ?case by simp
next
  case (Cons item rest)
  let ?f = "MediaFile item"
  obtain r w1 where d: "DownloadMediaItem_A e ?f folder w = (r, w1)"
    by (cases "DownloadMediaItem_A e ?f folder w")
  show ?case
  proof (cases "x = item")
    case True
    show ?thesis
    proof (cases r)
      case None
      with d have "files w1 (path_join e folder (FileFilename (MediaFile x))) \<noteq> None"
        using download_success_present[of e "FileBaseUrl ?f" "FileFilename ?f" folder w w1] True
        by (simp add: DownloadMediaItem_A_def)
      from downloadLoopA_keeps_files[OF this, of e rest folder] d None show ?thesis by simp
    next
      case (Some err)
      let ?w = "w1\<lparr>stdout := stdout w1 @ [ErrorDownloading (FileFilename ?f) err]\<rparr>"
      have "ErrorDownloading (FileFilename (MediaFile x)) err \<in> set (stdout ?w)"
        using True by simp
      from downloadLoopA_keeps_lines[OF this, of e rest folder] d Some show ?thesis by auto
    qed
  next
    case False
    with Cons.prems have "x \<in> set rest" by simp
    from Cons.IH[OF this] d show ?thesis by (cases r) simp_all
  qed
qed

lemma main_download_fetches:
  assumes "\<not> inaccessible e (path_join e folder (Filename x))"
    and "files (main_download e xs folder w) (path_join e folder (Filename x)) = None"
  shows "\<exists>more. requests (main_download e (xs @ x # ys) folder w) =
           requests (main_download e xs folder w) @ GET (BaseUrl x @ ''=d'') [] # more"
proof -
  let ?w = "main_download e xs folder w"
  obtain r w1 where d: "DownloadMediaItem e x folder ?w = (r, w1)"
    by (cases "DownloadMediaItem e x folder ?w")
  with download_fetches[OF assms, of "BaseUrl x"] have
    q: "requests w1 = requests ?w @ [GET (BaseUrl x @ ''=d'') []]"
    by (simp add: DownloadMediaItem_def)
  show ?thesis
  proof (cases r)
    case None
    from main_download_extends_requests[of e ys folder w1] obtain more where
      "requests (main_download e ys folder w1) = requests w1 @ more" by blast
    with q d None show ?thesis by (simp add: main_download_append)
  next
    case (Some err)
    from main_download_extends_requests
           [of e ys folder "w1\<lparr>stdout := stdout w1 @ [ErrorDownloading (Filename x) err]\<rparr>"]
    obtain more where
      "requests (main_download e ys folder
         (w1\<lparr>stdout := stdout w1 @ [ErrorDownloading (Filename x) err]\<rparr>)) =
       requests w1 @ more" by auto
    with q d Some show ?thesis by (simp add: main_download_append)
  qed
qed

lemma downloadLoopA_fetches:
  assumes "\<not> inaccessible e (path_join e folder (FileFilename (MediaFile x)))"
    and "files (downloadLoopA e xs folder w) (path_join e folder (FileFilename (MediaFile x))) = None"
  shows "\<exists>more. requests (downloadLoopA e (xs @ x # ys) folder w) =
           requests (downloadLoopA e xs folder w) @
           GET (FileBaseUrl (MediaFile x) @ ''=d'') [] # more"
proof -
  let ?w = "downloadLoopA e xs folder w"
  let ?f = "MediaFile x"
  obtain r w1 where d: "DownloadMediaItem_A e ?f folder ?w = (r, w1)"
    by (cases "DownloadMediaItem_A e ?f folder ?w")
  with download_fetches[OF assms, of "FileBaseUrl ?f"] have
    q: "requests w1 = requests ?w @ [GET (FileBaseUrl ?f @ ''=d'') []]"
    by (simp add: DownloadMediaItem_A_def)
  show ?thesis
  proof (cases r)
    case None
    from downloadLoopA_extends_requests[of e ys folder w1] obtain more where
      "requests (downloadLoopA e ys folder w1) = requests w1 @ more" by blast
    with q d None show ?thesis by (simp add: downloadLoopA_append)
  next
    case (Some err)
    from downloadLoopA_extends_requests
           [of e ys folder "w1\<lparr>stdout := stdout w1 @ [ErrorDownloading (FileFilename ?f) err]\<rparr>"]
    obtain more where
      "requests (downloadLoopA e ys folder
         (w1\<lparr>stdout := stdout w1 @ [ErrorDownloading (FileFilename ?f) err]\<rparr>)) =
       requests w1 @ more" by auto
    with q d Some show ?thesis by (simp add: downloadLoopA_append)
  qed
qed

text \<open>
  C4, as the claim states it, fails: the first item's download returns an error (the
  server answers 404), and the loop still requests the second item and writes its file.
  So it is for \<^verbatim>\<open>downloadItems\<close> and for the loop of \<^verbatim>\<open>main\<close>.
\<close>

theorem download_loop_stops_counterexample:
  "fst (DownloadMediaItem demo_env gone ''photos'' empty_world) =
     Some (DownloadStatus ''gone.jpg'' 404) \<and>
   requests (main_download demo_env [gone, sunset] ''photos'' empty_world) =
     [GET ''https://lh3/gone=d'' [], GET ''https://lh3/sunset=d'' []] \<and>
   files (main_download demo_env [gone, sunset] ''photos'' empty_world) ''photos/sunset.jpg'' =
     Some [1, 2, 3] \<and>
   fst (DownloadMediaItem_A demo_env gone_file ''photos'' empty_world) =
     Some (DownloadStatus ''gone.jpg'' 404) \<and>
   requests (downloadItems demo_env \<lparr>PickedItems = [picked gone_file, picked sunset_file]\<rparr>
               ''photos'' empty_world) =
     [GET ''https://lh3/gone=d'' [], GET ''https://lh3/sunset=d'' []] \<and>
   files (downloadItems demo_env \<lparr>PickedItems = [picked gone_file, picked sunset_file]\<rparr>
            ''photos'' empty_world) ''photos/sunset.jpg'' =
     Some [1, 2, 3]"
  by (simp add: downloadItems_def DownloadMediaItem_def DownloadMediaItem_A_def download_def
      os_Stat_def send_def demo_env_def demo_server_def sunset_def gone_def sunset_file_def
      gone_file_def picked_def empty_world_def join_slash_def mediaItemsURL_def sessionURL_def)

text \<open>
  C4, amended. A failed download is printed and the loop goes on: every media item of
  the list is attempted, in order, whatever happened to the items before it. When
  \<^verbatim>\<open>DownloadMediaItem\<close> returns an error on an item, the loop prints it and runs on the
  items after it. An item whose file is absent when its turn comes is requested from the
  server, whatever the items before it returned. When the loop ends, every item of the
  list has its file in place or its error printed, and the lines printed name each item
  once, in the list's order. So it is for \<^verbatim>\<open>downloadItems\<close> and for the loop of
  \<^verbatim>\<open>main\<close>.
\<close>

theorem download_loop_attempts_every_item:
  "(DownloadMediaItem e x folder (main_download e xs folder w) = (Some err, w1) \<longrightarrow>
      main_download e (xs @ x # ys) folder w =
        main_download e ys folder
          (w1\<lparr>stdout := stdout w1 @ [ErrorDownloading (Filename x) err]\<rparr>)) \<and>
   (\<not> inaccessible e (path_join e folder (Filename x)) \<and>
    files (main_download e xs folder w) (path_join e folder (Filename x)) = None \<longrightarrow>
      (\<exists>more. requests (main_download e (xs @ x # ys) folder w) =
          requests (main_download e xs folder w) @ GET (BaseUrl x @ ''=d'') [] # more)) \<and>
   (\<forall>i\<in>set ms.
      files (main_download e ms folder w) (path_join e folder (Filename i)) \<noteq> None \<or>
      (\<exists>err. ErrorDownloading (Filename i) err \<in> set (stdout (main_download e ms folder w)))) \<and>
   map reported (stdout (main_download e ms folder w)) =
     map reported (stdout w) @ map Filename ms \<and>
   (DownloadMediaItem_A e (MediaFile u) folder (downloadItems e \<lparr>PickedItems = us\<rparr> folder w) =
      (Some err, w1) \<longrightarrow>
      downloadItems e \<lparr>PickedItems = us @ u # vs\<rparr> folder w =
        downloadItems e \<lparr>PickedItems = vs\<rparr> folder
          (w1\<lparr>stdout := stdout w1 @ [ErrorDownloading (FileFilename (MediaFile u)) err]\<rparr>)) \<and>
   (\<not> inaccessible e (path_join e folder (FileFilename (MediaFile u))) \<and>
    files (downloadItems e \<lparr>PickedItems = us\<rparr> folder w)
      (path_join e folder (FileFilename (MediaFile u))) = None \<longrightarrow>
      (\<exists>more. requests (downloadItems e \<lparr>PickedItems = us @ u # vs\<rparr> folder w) =
          requests (downloadItems e \<lparr>PickedItems = us\<rparr> folder w) @
          GET (FileBaseUrl (MediaFile u) @ ''=d'') [] # more)) \<and>
   (\<forall>i\<in>set (PickedItems d).
      files (downloadItems e d folder w) (path_join e folder (FileFilename (MediaFile i))) \<noteq> None \<or>
      (\<exists>err. ErrorDownloading (FileFilename (MediaFile i)) err
               \<in> set (stdout (downloadItems e d folder w)))) \<and>
   map reported (stdout (downloadItems e d folder w)) =
     map reported (stdout w) @ map (\<lambda>i. FileFilename (MediaFile i)) (PickedItems d)"
proof -
  have b1: "DownloadMediaItem e x folder (main_download e xs folder w) = (Some err, w1) \<longrightarrow>
      main_download e (xs @ x # ys) folder w =
        main_download e ys folder
          (w1\<lparr>stdout := stdout w1 @ [ErrorDownloading (Filename x) err]\<rparr>)"
    by (simp add: main_download_append)
  have a1: "DownloadMediaItem_A e (MediaFile u) folder (downloadLoopA e us folder w) =
      (Some err, w1) \<longrightarrow>
      downloadLoopA e (us @ u # vs) folder w =
        downloadLoopA e vs folder
          (w1\<lparr>stdout := stdout w1 @ [ErrorDownloading (FileFilename (MediaFile u)) err]\<rparr>)"
    by (simp add: downloadLoopA_append)
  show ?thesis
    using b1 a1 main_download_fetches[of e folder x xs w ys]
      downloadLoopA_fetches[of e folder u us w vs]
      main_download_settles[of _ ms e folder w] downloadLoopA_settles[of _ "PickedItems d" e folder w]
    by (simp add: downloadItems_def main_download_reports downloadLoopA_reports)
qed

lemma demo_gone_fails:
  "DownloadMediaItem demo_env gone ''photos'' empty_world =
     (Some (DownloadStatus ''gone.jpg'' 404),
      empty_world\<lparr>requests := [GET ''https://lh3/gone=d'' []]\<rparr>)"
  "DownloadMediaItem_A demo_env gone_file ''photos'' empty_world =
     (Some (DownloadStatus ''gone.jpg'' 404),
      empty_world\<lparr>requests := [GET ''https://lh3/gone=d'' []]\<rparr>)"
  by (simp_all add: DownloadMediaItem_def DownloadMediaItem_A_def download_def os_Stat_def
      send_def demo_env_def demo_server_def gone_def gone_file_def empty_world_def
      join_slash_def mediaItemsURL_def sessionURL_def)

theorem download_loop_attempts_every_item_witness:
  "DownloadMediaItem demo_env gone ''photos'' (main_download demo_env [] ''photos'' empty_world) =
     (Some (DownloadStatus ''gone.jpg'' 404),
      empty_world\<lparr>requests := [GET ''https://lh3/gone=d'' []]\<rparr>) \<and>
   main_download demo_env ([] @ gone # [sunset]) ''photos'' empty_world =
     main_download demo_env [sunset] ''photos''
       (empty_world
          \<lparr>requests := [GET ''https://lh3/gone=d'' []],
           stdout := stdout (empty_world\<lparr>requests := [GET ''https://lh3/gone=d'' []]\<rparr>) @
             [ErrorDownloading (Filename gone) (DownloadStatus ''gone.jpg'' 404)]\<rparr>) \<and>
   downloadItems demo_env \<lparr>PickedItems = [] @ picked gone_file # [picked sunset_file]\<rparr>
       ''photos'' empty_world =
     downloadItems demo_env \<lparr>PickedItems = [picked sunset_file]\<rparr> ''photos''
       (empty_world
          \<lparr>requests := [GET ''https://lh3/gone=d'' []],
           stdout := stdout (empty_world\<lparr>requests := [GET ''https://lh3/gone=d'' []]\<rparr>) @
             [ErrorDownloading (FileFilename (MediaFile (picked gone_file)))
                (DownloadStatus ''gone.jpg'' 404)]\<rparr>)"
proof -
  note run = download_loop_attempts_every_item
          [of demo_env gone "''photos''" "[]" empty_world "DownloadStatus ''gone.jpg'' 404"
              "empty_world\<lparr>requests := [GET ''https://lh3/gone=d'' []]\<rparr>" "[sunset]"
              "[gone, sunset]" "picked gone_file" "[]" "[picked sunset_file]"
              "\<lparr>PickedItems = [picked gone_file, picked sunset_file]\<rparr>"]
  have g: "DownloadMediaItem demo_env gone ''photos''
             (main_download demo_env [] ''photos'' empty_world) =
     (Some (DownloadStatus ''gone.jpg'' 404),
      empty_world\<lparr>requests := [GET ''https://lh3/gone=d'' []]\<rparr>)"
    using demo_gone_fails(1) by simp
  have h: "DownloadMediaItem_A demo_env (MediaFile (picked gone_file)) ''photos''
             (downloadItems demo_env \<lparr>PickedItems = []\<rparr> ''photos'' empty_world) =
     (Some (DownloadStatus ''gone.jpg'' 404),
      empty_world\<lparr>requests := [GET ''https://lh3/gone=d'' []]\<rparr>)"
    using demo_gone_fails(2) by (simp add: downloadItems_def picked_def)
  from run[THEN conjunct1, rule_format, OF g]
  have r1: "main_download demo_env ([] @ gone # [sunset]) ''photos'' empty_world =
     main_download demo_env [sunset] ''photos''
       (empty_world
          \<lparr>requests := [GET ''https://lh3/gone=d'' []],
           stdout := stdout (empty_world\<lparr>requests := [GET ''https://lh3/gone=d'' []]\<rparr>) @
             [ErrorDownloading (Filename gone) (DownloadStatus ''gone.jpg'' 404)]\<rparr>)" .
  from run[THEN conjunct2, THEN conjunct2, THEN conjunct2, THEN conjunct2, THEN conjunct1,
           rule_format, OF h]
  have r2: "downloadItems demo_env \<lparr>PickedItems = [] @ picked gone_file # [picked sunset_file]\<rparr>
       ''photos'' empty_world =
     downloadItems demo_env \<lparr>PickedItems = [picked sunset_file]\<rparr> ''photos''
       (empty_world
          \<lparr>requests := [GET ''https://lh3/gone=d'' []],
           stdout := stdout (empty_world\<lparr>requests := [GET ''https://lh3/gone=d'' []]\<rparr>) @
             [ErrorDownloading (FileFilename (MediaFile (picked gone_file)))
                (DownloadStatus ''gone.jpg'' 404)]\<rparr>)" .
  show ?thesis by (rule conjI[OF g conjI[OF r1 r2]])
qed

section \<open>Pagination\<close>

lemma search_request_token:
  "t \<noteq> [] \<Longrightarrow> page_token_of (search_request m t) = Some t"
  "map_of m ''pageToken'' = None \<Longrightarrow> page_token_of (search_request m []) = None"
  by (simp_all add: search_request_def search_payload_def AList.update_conv')

lemma list_request_token:
  "page_token_of (list_request sid t) = (if t = [] then None else Some t)"
  by (simp add: list_request_def)

lemma search_tokens:
  "\<forall>q\<in>set ps. NextPageToken q \<noteq> [] \<Longrightarrow>
   map page_token_of (map (search_request m) (map NextPageToken ps)) =
   map (\<lambda>q. Some (NextPageToken q)) ps"
  by (induction ps) (simp_all add: search_request_token)

lemma list_tokens:
  "\<forall>q\<in>set ps. ListNextPageToken q \<noteq> [] \<Longrightarrow>
   map page_token_of (map (list_request sid) (map ListNextPageToken ps)) =
   map (\<lambda>q. Some (ListNextPageToken q)) ps"
  by (induction ps) (simp_all add: list_request_token)

text \<open>
  C2. Let the server answer the requests of the loop with the pages \<open>ps @ [p]\<close>, every
  page of \<open>ps\<close> naming a next page token and \<open>p\<close> naming none. Then
  \<^verbatim>\<open>SearchMediaItems\<close> returns, without error, the media items of the pages concatenated
  in that order, and it has issued one request for each page and none after \<open>p\<close>: the
  first with the caller's payload and the page size (so with no page token, when the
  caller's payload has none), each later one with the next page token of the page before
  it. The same holds for \<^verbatim>\<open>fetchSelectedMediaItems\<close> with its GET requests.
\<close>

theorem pagination_concatenates_pages:
  "(heap w r = Some m \<and> marshal_ok (search_payload m []) \<and>
    pages_of (decode_search e) bs (ps @ [p]) \<and>
    answers (http e) (length (requests w))
      (map (search_request m) ([] # map NextPageToken ps)) (map (Response 200) bs) \<and>
    (\<forall>q\<in>set ps. NextPageToken q \<noteq> []) \<and> NextPageToken p = [] \<longrightarrow>
      SearchMediaItems e r w =
        Some (Return (concat (map MediaItems (ps @ [p])), None),
              w\<lparr>heap := (heap w)(r \<mapsto> search_payload m (last ([] # map NextPageToken ps))),
                requests := requests w @ map (search_request m) ([] # map NextPageToken ps)\<rparr>) \<and>
      (map_of m ''pageToken'' = None \<longrightarrow>
         map page_token_of (map (search_request m) ([] # map NextPageToken ps)) =
           None # map (\<lambda>q. Some (NextPageToken q)) ps)) \<and>
   (pages_of (decode_list e) cs (ls @ [l]) \<and>
    answers (http e) (length (requests w))
      (map (list_request sid) ([] # map ListNextPageToken ls)) (map (Response 200) cs) \<and>
    (\<forall>q\<in>set ls. ListNextPageToken q \<noteq> []) \<and> ListNextPageToken l = [] \<longrightarrow>
      fetchSelectedMediaItems e sid w =
        Some ((\<lparr>PickedItems = concat (map ListMediaItems (ls @ [l]))\<rparr>, None),
              w\<lparr>requests := requests w @ map (list_request sid) ([] # map ListNextPageToken ls)\<rparr>) \<and>
      map page_token_of (map (list_request sid) ([] # map ListNextPageToken ls)) =
        None # map (\<lambda>q. Some (ListNextPageToken q)) ls)"
proof (intro conjI impI)
  assume a: "heap w r = Some m \<and> marshal_ok (search_payload m []) \<and>
    pages_of (decode_search e) bs (ps @ [p]) \<and>
    answers (http e) (length (requests w))
      (map (search_request m) ([] # map NextPageToken ps)) (map (Response 200) bs) \<and>
    (\<forall>q\<in>set ps. NextPageToken q \<noteq> []) \<and> NextPageToken p = []"
  have c: "carried m m []" by (simp add: carried_def)
  from a have "SearchLoop e r [] [] w =
        Some (Return ([] @ concat (map MediaItems (ps @ [p])), None),
              w\<lparr>heap := (heap w)(r \<mapsto> search_payload m (last ([] # map NextPageToken ps))),
                requests := requests w @ map (search_request m) ([] # map NextPageToken ps)\<rparr>)"
    by (intro SearchLoop_run[OF _ _ c]) blast+
  then show "SearchMediaItems e r w =
        Some (Return (concat (map MediaItems (ps @ [p])), None),
              w\<lparr>heap := (heap w)(r \<mapsto> search_payload m (last ([] # map NextPageToken ps))),
                requests := requests w @ map (search_request m) ([] # map NextPageToken ps)\<rparr>)"
    by (simp add: SearchMediaItems_def)
  assume "map_of m ''pageToken'' = None"
  with a show "map page_token_of (map (search_request m) ([] # map NextPageToken ps)) =
           None # map (\<lambda>q. Some (NextPageToken q)) ps"
    using search_tokens[of ps m] by (simp add: search_request_token)
next
  assume a: "pages_of (decode_list e) cs (ls @ [l]) \<and>
    answers (http e) (length (requests w))
      (map (list_request sid) ([] # map ListNextPageToken ls)) (map (Response 200) cs) \<and>
    (\<forall>q\<in>set ls. ListNextPageToken q \<noteq> []) \<and> ListNextPageToken l = []"
  then show "fetchSelectedMediaItems e sid w =
        Some ((\<lparr>PickedItems = concat (map ListMediaItems (ls @ [l]))\<rparr>, None),
              w\<lparr>requests := requests w @ map (list_request sid) ([] # map ListNextPageToken ls)\<rparr>)"
    by (intro fetchSelectedMediaItems_run) blast+
  from a show "map page_token_of (map (list_request sid) ([] # map ListNextPageToken ls)) =
        None # map (\<lambda>q. Some (ListNextPageToken q)) ls"
    using list_tokens[of ls sid] by (simp add: list_request_token)
qed

lemma demo_search_answers:
  "answers (http demo_env) 0
     (map (search_request favorites) ([] # map NextPageToken [search_page1]))
     (map (Response 200) [[1], [2]])"
  by (simp add: demo_env_def demo_server_def search_request_def search_payload_def
      favorites_def search_page1_def)

lemma demo_list_answers:
  "answers (http demo_env) 0
     (map (list_request ''s1'') ([] # map ListNextPageToken [list_page1]))
     (map (Response 200) [[1], [2]])"
  by (simp add: demo_env_def demo_server_def list_request_def list_page1_def mediaItemsURL_def)

theorem pagination_concatenates_pages_witness:
  "SearchMediaItems demo_env 0 search_world =
     Some (Return ([gone, sunset], None),
           search_world
             \<lparr>heap := (heap search_world)(0 \<mapsto> search_payload favorites ''next''),
              requests := [search_request favorites [], search_request favorites ''next'']\<rparr>) \<and>
   map page_token_of [search_request favorites [], search_request favorites ''next''] =
     [None, Some ''next''] \<and>
   fetchSelectedMediaItems demo_env ''s1'' search_world =
     Some ((\<lparr>PickedItems = [picked gone_file, picked sunset_file]\<rparr>, None),
           search_world\<lparr>requests := [list_request ''s1'' [], list_request ''s1'' ''next'']\<rparr>)"
proof -
  have h: "heap search_world 0 = Some favorites" "requests search_world = []"
    by (simp_all add: search_world_def empty_world_def)
  have m: "marshal_ok (search_payload favorites [])" "map_of favorites ''pageToken'' = None"
    by (simp_all add: search_payload_def favorites_def marshal_ok_def)
  have p: "pages_of (decode_search demo_env) [[1], [2]] ([search_page1] @ [search_page2])"
          "pages_of (decode_list demo_env) [[1], [2]] ([list_page1] @ [list_page2])"
    by (simp_all add: demo_env_def)
  have t: "\<forall>q\<in>set [search_page1]. NextPageToken q \<noteq> []" "NextPageToken search_page2 = []"
          "\<forall>q\<in>set [list_page1]. ListNextPageToken q \<noteq> []" "ListNextPageToken list_page2 = []"
    by (simp_all add: search_page1_def search_page2_def list_page1_def list_page2_def)
  show ?thesis
    using pagination_concatenates_pages
            [of search_world 0 favorites demo_env "[[1], [2]]" "[search_page1]" search_page2
                "[[1], [2]]" "[list_page1]" list_page2 "''s1''"]
          h m p t demo_search_answers demo_list_answers
    by (simp add: search_page1_def search_page2_def list_page1_def list_page2_def)
qed

text \<open>
  C7. Let the server answer the first requests of the loop with the pages \<open>ps\<close>, each
  naming a next page token, and the request after them with a failure: the request
  fails, its status is not 200, or its body does not decode. Then \<^verbatim>\<open>SearchMediaItems\<close>
  returns an error and the empty list of media items, whatever the pages \<open>ps\<close> held, and
  so does \<^verbatim>\<open>fetchSelectedMediaItems\<close>.
\<close>

theorem pagination_failure_returns_no_items:
  "(heap w r = Some m \<and> marshal_ok (search_payload m []) \<and>
    pages_of (decode_search e) bs ps \<and>
    answers (http e) (length (requests w))
      (map (search_request m) ([] # map NextPageToken ps)) (map (Response 200) bs @ [bad]) \<and>
    (\<forall>q\<in>set ps. NextPageToken q \<noteq> []) \<and> failed_page (decode_search e) bad \<longrightarrow>
      (\<exists>err. SearchMediaItems e r w =
         Some (Return ([], Some err),
               w\<lparr>heap := (heap w)(r \<mapsto> search_payload m (last ([] # map NextPageToken ps))),
                 requests := requests w @ map (search_request m) ([] # map NextPageToken ps)\<rparr>))) \<and>
   (pages_of (decode_list e) cs ls \<and>
    answers (http e) (length (requests w))
      (map (list_request sid) ([] # map ListNextPageToken ls)) (map (Response 200) cs @ [bad']) \<and>
    (\<forall>q\<in>set ls. ListNextPageToken q \<noteq> []) \<and> failed_page (decode_list e) bad' \<longrightarrow>
      (\<exists>err. fetchSelectedMediaItems e sid w =
         Some ((\<lparr>PickedItems = []\<rparr>, Some err),
               w\<lparr>requests := requests w @ map (list_request sid) ([] # map ListNextPageToken ls)\<rparr>)))"
proof (intro conjI impI)
  assume a: "heap w r = Some m \<and> marshal_ok (search_payload m []) \<and>
    pages_of (decode_search e) bs ps \<and>
    answers (http e) (length (requests w))
      (map (search_request m) ([] # map NextPageToken ps)) (map (Response 200) bs @ [bad]) \<and>
    (\<forall>q\<in>set ps. NextPageToken q \<noteq> []) \<and> failed_page (decode_search e) bad"
  have c: "carried m m []" by (simp add: carried_def)
  from a have "\<exists>err. SearchLoop e r [] [] w =
         Some (Return ([], Some err),
               w\<lparr>heap := (heap w)(r \<mapsto> search_payload m (last ([] # map NextPageToken ps))),
                 requests := requests w @ map (search_request m) ([] # map NextPageToken ps)\<rparr>)"
    by (intro SearchLoop_fails[OF _ _ c]) blast+
  then show "\<exists>err. SearchMediaItems e r w =
         Some (Return ([], Some err),
               w\<lparr>heap := (heap w)(r \<mapsto> search_payload m (last ([] # map NextPageToken ps))),
                 requests := requests w @ map (search_request m) ([] # map NextPageToken ps)\<rparr>)"
    by (simp add: SearchMediaItems_def)
next
  assume a: "pages_of (decode_list e) cs ls \<and>
    answers (http e) (length (requests w))
      (map (list_request sid) ([] # map ListNextPageToken ls)) (map (Response 200) cs @ [bad']) \<and>
    (\<forall>q\<in>set ls. ListNextPageToken q \<noteq> []) \<and> failed_page (decode_list e) bad'"
  then have "\<exists>err. fetchSelectedMediaItems e sid w =
     Some ((no_items, Some err),
           w\<lparr>requests := requests w @ map (list_request sid) ([] # map ListNextPageToken ls)\<rparr>)"
    by (intro fetchSelectedMediaItems_fails) blast+
  then show "\<exists>err. fetchSelectedMediaItems e sid w =
         Some ((\<lparr>PickedItems = []\<rparr>, Some err),
               w\<lparr>requests := requests w @ map (list_request sid) ([] # map ListNextPageToken ls)\<rparr>)"
    by (simp add: no_items_def)
qed

lemma flaky_search_answers:
  "answers (http flaky_env) 0
     (map (search_request favorites) ([] # map NextPageToken [search_page1]))
     (map (Response 200) [[1]] @ [TransportError])"
  by (simp add: flaky_env_def demo_env_def demo_server_def search_request_def
      search_payload_def favorites_def search_page1_def)

lemma flaky_list_answers:
  "answers (http flaky_env) 0
     (map (list_request ''s1'') ([] # map ListNextPageToken [list_page1]))
     (map (Response 200) [[1]] @ [TransportError])"
  by (simp add: flaky_env_def demo_env_def demo_server_def list_request_def list_page1_def
      mediaItemsURL_def)

lemma flaky_search_run:
  "SearchMediaItems flaky_env 0 search_world =
     Some (Return ([], Some RequestError),
           search_world
             \<lparr>heap := (heap search_world)(0 \<mapsto> search_payload favorites ''next''),
              requests := [search_request favorites [], search_request favorites ''next'']\<rparr>)"
proof -
  have h: "heap search_world 0 = Some favorites" "requests search_world = []"
    by (simp_all add: search_world_def empty_world_def)
  have m: "marshal_ok (search_payload favorites [])"
    by (simp add: search_payload_def favorites_def marshal_ok_def)
  have a1: "http flaky_env 0 (search_request favorites []) = Response 200 [1]"
    and a2: "http flaky_env (Suc 0) (search_request favorites ''next'') = TransportError"
    using flaky_search_answers by (simp_all add: search_page1_def)
  have d: "decode_search flaky_env [1] = Some search_page1"
    by (simp add: flaky_env_def demo_env_def)
  have m2: "marshal_ok (search_payload favorites ''next'')"
    by (simp add: search_payload_def favorites_def marshal_ok_def)
  let ?w = "search_world\<lparr>heap := (heap search_world)(0 \<mapsto> search_payload favorites []),
              requests := requests search_world @ [search_request favorites []]\<rparr>"
  have s1: "SearchMediaItems flaky_env 0 search_world =
            SearchLoop flaky_env 0 ''next'' [gone] ?w"
    unfolding SearchMediaItems_def
    by (simp add: SearchLoop_unfold[OF h(1)] m h(2) a1 d search_page1_def)
  have hw: "heap ?w 0 = Some (search_payload favorites [])" by simp
  have again: "search_payload (search_payload favorites []) ''next'' = search_payload favorites ''next''"
    by (simp add: search_payload_again)
  have rq: "search_request (search_payload favorites []) ''next'' = search_request favorites ''next''"
    by (simp add: search_request_def again)
  have s2: "SearchLoop flaky_env 0 ''next'' [gone] ?w =
     Some (Return ([], Some RequestError),
           ?w\<lparr>heap := (heap ?w)(0 \<mapsto> search_payload favorites ''next''),
              requests := requests ?w @ [search_request favorites ''next'']\<rparr>)"
    by (subst SearchLoop_unfold[OF hw]) (simp add: again rq m2 h(2) a2)
  show ?thesis
    unfolding s1 s2 by (simp add: h(2) fun_upd_def cong: if_cong)
qed

theorem pagination_failure_returns_no_items_witness:
  "SearchMediaItems flaky_env 0 search_world =
     Some (Return ([], Some RequestError),
           search_world
             \<lparr>heap := (heap search_world)(0 \<mapsto> search_payload favorites ''next''),
              requests := [search_request favorites [], search_request favorites ''next'']\<rparr>) \<and>
   (\<exists>err. fetchSelectedMediaItems flaky_env ''s1'' search_world =
     Some ((\<lparr>PickedItems = []\<rparr>, Some err),
           search_world\<lparr>requests := [list_request ''s1'' [], list_request ''s1'' ''next'']\<rparr>))"
proof -
  have h: "heap search_world 0 = Some favorites" "requests search_world = []"
    by (simp_all add: search_world_def empty_world_def)
  have m: "marshal_ok (search_payload favorites [])"
    by (simp add: search_payload_def favorites_def marshal_ok_def)
  have p: "pages_of (decode_search flaky_env) [[1]] [search_page1]"
          "pages_of (decode_list flaky_env) [[1]] [list_page1]"
    by (simp_all add: flaky_env_def demo_env_def)
  have t: "\<forall>q\<in>set [search_page1]. NextPageToken q \<noteq> []"
          "\<forall>q\<in>set [list_page1]. ListNextPageToken q \<noteq> []"
          "failed_page (decode_search flaky_env) TransportError"
          "failed_page (decode_list flaky_env) TransportError"
    by (simp_all add: search_page1_def list_page1_def)
  show ?thesis
    using pagination_failure_returns_no_items
            [of search_world 0 favorites flaky_env "[[1]]" "[search_page1]" TransportError
                "[[1]]" "[list_page1]" "''s1''" TransportError]
          h m p t flaky_search_answers flaky_list_answers flaky_search_run
    by (simp add: search_page1_def list_page1_def)
qed

section \<open>What a search leaves in the caller's map and in its requests\<close>

text \<open>
  C8. Whenever \<^verbatim>\<open>SearchMediaItems\<close> comes back on a caller's map that held \<open>m\<close>, it
  returns (it neither panics nor ends the process) and the store holds, under the
  caller's own reference, \<open>m\<close> with \<open>pageSize\<close> set to 100 and, exactly when a second
  request was issued, with \<open>pageToken\<close> set to a page token. So the key \<open>pageSize\<close> is
  in the caller's map bound to 100, and the map is not what it was unless it bound
  \<open>pageSize\<close> to 100 before the call.
\<close>

theorem SearchMediaItems_mutates_filterPayload:
  "SearchMediaItems e r w = Some (res, w') \<and> heap w r = Some m \<longrightarrow>
     (\<exists>x. res = Return x) \<and>
     (\<exists>t. heap w' r = Some (search_payload m t) \<and>
          (t \<noteq> [] \<longleftrightarrow> length (requests w) + 2 \<le> length (requests w'))) \<and>
     (\<exists>m'. heap w' r = Some m' \<and> map_of m' ''pageSize'' = Some (JNum 100)) \<and>
     (map_of m ''pageSize'' \<noteq> Some (JNum 100) \<longrightarrow> heap w' r \<noteq> heap w r)"
proof (intro impI)
  assume a: "SearchMediaItems e r w = Some (res, w') \<and> heap w r = Some m"
  then have run: "SearchMediaItems e r w = Some (res, w')" and m: "heap w r = Some m"
    by simp_all
  from SearchMediaItems_leaves[OF run m] obtain x t where
    x: "res = Return x" and t: "heap w' r = Some (search_payload m t)"
      "t \<noteq> [] \<longleftrightarrow> length (requests w) + 2 \<le> length (requests w')"
    by blast
  have size: "map_of (search_payload m t) ''pageSize'' = Some (JNum 100)"
    by (rule search_payload_page_size)
  have changed: "map_of m ''pageSize'' \<noteq> Some (JNum 100) \<longrightarrow> heap w' r \<noteq> heap w r"
    using t(1) m size by auto
  show "(\<exists>x. res = Return x) \<and>
     (\<exists>t. heap w' r = Some (search_payload m t) \<and>
          (t \<noteq> [] \<longleftrightarrow> length (requests w) + 2 \<le> length (requests w'))) \<and>
     (\<exists>m'. heap w' r = Some m' \<and> map_of m' ''pageSize'' = Some (JNum 100)) \<and>
     (map_of m ''pageSize'' \<noteq> Some (JNum 100) \<longrightarrow> heap w' r \<noteq> heap w r)"
    using x t size changed by blast
qed

lemma demo_search_run:
  "SearchMediaItems demo_env 0 search_world =
     Some (Return ([gone, sunset], None),
           search_world
             \<lparr>heap := (heap search_world)(0 \<mapsto> search_payload favorites ''next''),
              requests := [search_request favorites [], search_request favorites ''next'']\<rparr>)"
proof -
  have h: "heap search_world 0 = Some favorites" "requests search_world = []"
    by (simp_all add: search_world_def empty_world_def)
  have m: "marshal_ok (search_payload favorites [])"
    by (simp add: search_payload_def favorites_def marshal_ok_def)
  have p: "pages_of (decode_search demo_env) [[1], [2]] ([search_page1] @ [search_page2])"
    by (simp add: demo_env_def)
  have t: "\<forall>q\<in>set [search_page1]. NextPageToken q \<noteq> []" "NextPageToken search_page2 = []"
    by (simp_all add: search_page1_def search_page2_def)
  have a: "answers (http demo_env) (length (requests search_world))
     (map (search_request favorites) ([] # map NextPageToken [search_page1]))
     (map (Response 200) [[1], [2]])"
    by (simp add: h demo_env_def demo_server_def search_request_def search_payload_def
        favorites_def search_page1_def)
  have c: "carried favorites favorites []" by (simp add: carried_def)
  show ?thesis
    unfolding SearchMediaItems_def
    using SearchLoop_run[OF m h(1) c p a t, of "[]"]
    by (simp add: h search_page1_def search_page2_def)
qed

theorem SearchMediaItems_mutates_filterPayload_witness:
  "SearchMediaItems demo_env 0 search_world =
     Some (Return ([gone, sunset], None),
           search_world
             \<lparr>heap := (heap search_world)(0 \<mapsto> search_payload favorites ''next''),
              requests := [search_request favorites [], search_request favorites ''next'']\<rparr>) \<and>
   heap search_world 0 = Some favorites \<and>
   map_of favorites ''pageSize'' \<noteq> Some (JNum 100) \<and>
   map_of (search_payload favorites ''next'') ''pageSize'' = Some (JNum 100) \<and>
   map_of (search_payload favorites ''next'') ''pageToken'' = Some (JStr ''next'') \<and>
   search_payload favorites ''next'' \<noteq> favorites"
  using SearchMediaItems_mutates_filterPayload
          [of demo_env 0 search_world "Return ([gone, sunset], None)"
              "search_world
                 \<lparr>heap := (heap search_world)(0 \<mapsto> search_payload favorites ''next''),
                  requests := [search_request favorites [], search_request favorites ''next'']\<rparr>"
              favorites]
        demo_search_run
  by (simp add: search_world_def empty_world_def favorites_def search_payload_def)

lemma fetch_first_request:
  "requests (snd (getMediaItemsFromFirstPage e sid w)) =
     requests w @ [GET mediaItemsURL [(''sessionId'', sid), (''pageSize'', ''100'')]]"
  by (simp add: getMediaItemsFromFirstPage_def send_def Let_def
      split: http_result.splits option.splits)

lemma fetch_page_request:
  "requests (snd (getMediaItemsFromPageURL e sid t w)) =
     requests w @
     [GET mediaItemsURL [(''sessionId'', sid), (''pageSize'', ''100''), (''pageToken'', t)]]"
  by (simp add: getMediaItemsFromPageURL_def send_def Let_def
      split: http_result.splits option.splits)

text \<open>
  C10. Whenever \<^verbatim>\<open>SearchMediaItems\<close> comes back, the requests it has issued extend the
  request log and each of them has \<open>pageSize\<close> bound to 100 in its payload. Each of the
  two page fetchers of the picker issues exactly one request, and the only \<open>pageSize\<close>
  in its query is \<open>100\<close>.
\<close>

theorem page_requests_ask_for_100:
  "(SearchMediaItems e r w = Some (res, w') \<longrightarrow>
      take (length (requests w)) (requests w') = requests w \<and>
      list_all asks_page_size_100 (drop (length (requests w)) (requests w'))) \<and>
   requests (snd (getMediaItemsFromFirstPage e sid w)) =
     requests w @ [GET mediaItemsURL [(''sessionId'', sid), (''pageSize'', ''100'')]] \<and>
   asks_page_size_100 (GET mediaItemsURL [(''sessionId'', sid), (''pageSize'', ''100'')]) \<and>
   requests (snd (getMediaItemsFromPageURL e sid t w)) =
     requests w @
     [GET mediaItemsURL [(''sessionId'', sid), (''pageSize'', ''100''), (''pageToken'', t)]] \<and>
   asks_page_size_100
     (GET mediaItemsURL [(''sessionId'', sid), (''pageSize'', ''100''), (''pageToken'', t)])"
proof -
  have "SearchMediaItems e r w = Some (res, w') \<longrightarrow>
      take (length (requests w)) (requests w') = requests w \<and>
      list_all asks_page_size_100 (drop (length (requests w)) (requests w'))"
  proof
    assume "SearchMediaItems e r w = Some (res, w')"
    then have "SearchLoop e r [] [] w = Some (res, w')" by (simp add: SearchMediaItems_def)
    from SearchLoop_asks_100[OF this] obtain new where
      "requests w' = requests w @ new" "list_all asks_page_size_100 new" by auto
    then show "take (length (requests w)) (requests w') = requests w \<and>
      list_all asks_page_size_100 (drop (length (requests w)) (requests w'))" by simp
  qed
  then show ?thesis
    by (simp add: fetch_first_request fetch_page_request)
qed

theorem page_requests_ask_for_100_witness:
  "SearchMediaItems demo_env 0 search_world =
     Some (Return ([gone, sunset], None),
           search_world
             \<lparr>heap := (heap search_world)(0 \<mapsto> search_payload favorites ''next''),
              requests := [search_request favorites [], search_request favorites ''next'']\<rparr>) \<and>
   list_all asks_page_size_100 [search_request favorites [], search_request favorites ''next'']"
  using page_requests_ask_for_100
          [of demo_env 0 search_world "Return ([gone, sunset], None)"
              "search_world
                 \<lparr>heap := (heap search_world)(0 \<mapsto> search_payload favorites ''next''),
                  requests := [search_request favorites [], search_request favorites ''next'']\<rparr>"
              "''s1''" "''next''"]
        demo_search_run
  by (simp add: search_world_def empty_world_def)

section \<open>Waiting for the selection\<close>













section \<open>The credential store\<close>

lemma getNewTokenAndSave_flows:
  "web_flows (snd (getNewTokenAndSave e f w)) = Suc (web_flows w)"
  by (simp add: getNewTokenAndSave_def getTokenFromWeb_def saveToken_def Let_def
      split: flow_result.splits)

lemma getNewTokenAndSave_saves:
  assumes "\<not> handler_registered w" "web_flow e (web_flows w) = Authorized new"
    and "\<not> create_err e f"
  shows "getNewTokenAndSave e f w =
     (Return new,
      w\<lparr>web_flows := Suc (web_flows w), handler_registered := True,
        files := (files w)(f \<mapsto> encode_token e new)\<rparr>)"
  using assms
  by (simp add: getNewTokenAndSave_def getTokenFromWeb_def saveToken_def Let_def)

lemma getNewTokenAndSave_registered:
  "handler_registered w \<Longrightarrow>
   getNewTokenAndSave e f w = (Panic, w\<lparr>web_flows := Suc (web_flows w)\<rparr>)"
  by (simp add: getNewTokenAndSave_def getTokenFromWeb_def Let_def)

text \<open>When the token file cannot be opened or decoded.\<close>

lemma tokenFromFile_fails:
  "(\<exists>err. tokenFromFile e f w = Inl err) \<longleftrightarrow>
     inaccessible e f \<or>
     (case files w f of None \<Rightarrow> True | Some c \<Rightarrow> decode_token e c = None)"
  by (auto simp add: tokenFromFile_def split: option.splits)

lemma tokenFromFile_reads:
  "tokenFromFile e f w = Inr tok \<longleftrightarrow>
     \<not> inaccessible e f \<and> (\<exists>c. files w f = Some c \<and> decode_token e c = Some tok)"
  by (auto simp add: tokenFromFile_def split: option.splits)

lemma getClient_flows:
  "web_flows w < web_flows (snd (getClient e w)) \<longleftrightarrow>
     inaccessible e tokenFile \<or>
     (case files w tokenFile of
        None \<Rightarrow> True
      | Some c \<Rightarrow> (case decode_token e c of None \<Rightarrow> True | Some tok \<Rightarrow> Expiry tok < now e))"
proof (cases "tokenFromFile e tokenFile w")
  case (Inl err)
  then have due: "inaccessible e tokenFile \<or>
     (case files w tokenFile of None \<Rightarrow> True | Some c \<Rightarrow> decode_token e c = None)"
    using tokenFromFile_fails[of e tokenFile w] by blast
  obtain o1 w1 where a: "getNewTokenAndSave e tokenFile w = (o1, w1)"
    by (cases "getNewTokenAndSave e tokenFile w")
  with getNewTokenAndSave_flows[of e tokenFile w] have f1: "web_flows w1 = Suc (web_flows w)"
    by simp
  have "web_flows w1 \<le> web_flows (snd (getClient e w))"
    using Inl a getNewTokenAndSave_flows[of e tokenFile w1]
    by (cases o1) (simp_all add: getClient_def refresh_if_expired_def)
  with f1 have "web_flows w < web_flows (snd (getClient e w))" by simp
  moreover from due have "inaccessible e tokenFile \<or>
     (case files w tokenFile of
        None \<Rightarrow> True
      | Some c \<Rightarrow> (case decode_token e c of None \<Rightarrow> True | Some tok \<Rightarrow> Expiry tok < now e))"
    by (auto split: option.splits)
  ultimately show ?thesis by simp
next
  case (Inr tok)
  then obtain c where r: "\<not> inaccessible e tokenFile" "files w tokenFile = Some c"
      "decode_token e c = Some tok"
    using tokenFromFile_reads[of e tokenFile w tok] by blast
  show ?thesis
    using Inr r getNewTokenAndSave_flows[of e tokenFile w]
    by (simp add: getClient_def refresh_if_expired_def)
qed

lemma getClient_stored:
  assumes "\<not> inaccessible e tokenFile" "files w tokenFile = Some c"
    and "decode_token e c = Some stored" "\<not> Expiry stored < now e"
  shows "getClient e w = (Return stored, w)"
proof -
  have "tokenFromFile e tokenFile w = Inr stored"
    using assms tokenFromFile_reads[of e tokenFile w stored] by blast
  then show ?thesis using assms(4) by (simp add: getClient_def refresh_if_expired_def)
qed

lemma getClient_saves:
  assumes "inaccessible e tokenFile \<or>
     (case files w tokenFile of
        None \<Rightarrow> True
      | Some c \<Rightarrow> (case decode_token e c of None \<Rightarrow> True | Some tok \<Rightarrow> Expiry tok < now e))"
    and "\<not> handler_registered w" "web_flow e (web_flows w) = Authorized new"
    and "\<not> create_err e tokenFile"
  shows "files (snd (getClient e w)) = (files w)(tokenFile \<mapsto> encode_token e new)"
    and "\<not> Expiry new < now e \<Longrightarrow>
         getClient e w =
           (Return new,
            w\<lparr>web_flows := Suc (web_flows w), handler_registered := True,
              files := (files w)(tokenFile \<mapsto> encode_token e new)\<rparr>)"
proof -
  let ?w1 = "w\<lparr>web_flows := Suc (web_flows w), handler_registered := True,
              files := (files w)(tokenFile \<mapsto> encode_token e new)\<rparr>"
  have s: "getNewTokenAndSave e tokenFile w = (Return new, ?w1)"
    by (rule getNewTokenAndSave_saves[OF assms(2,3,4)])
  have p: "getNewTokenAndSave e tokenFile ?w1 = (Panic, ?w1\<lparr>web_flows := Suc (web_flows ?w1)\<rparr>)"
    by (rule getNewTokenAndSave_registered) simp
  have both: "files (snd (getClient e w)) = (files w)(tokenFile \<mapsto> encode_token e new) \<and>
    (\<not> Expiry new < now e \<longrightarrow> getClient e w = (Return new, ?w1))"
  proof (cases "tokenFromFile e tokenFile w")
    case (Inl err)
    then show ?thesis
      by (simp add: getClient_def s refresh_if_expired_def p)
  next
    case (Inr tok)
    then obtain c where r: "\<not> inaccessible e tokenFile" "files w tokenFile = Some c"
        "decode_token e c = Some tok"
      using tokenFromFile_reads[of e tokenFile w tok] by blast
    with assms(1) have "Expiry tok < now e" by simp
    with Inr show ?thesis
      by (simp add: getClient_def s refresh_if_expired_def)
  qed
  from both show "files (snd (getClient e w)) = (files w)(tokenFile \<mapsto> encode_token e new)"
    by simp
  from both show "\<not> Expiry new < now e \<Longrightarrow> getClient e w = (Return new, ?w1)" by simp
qed

text \<open>
  C5. \<^verbatim>\<open>getClient\<close> starts the web authorization flow if and only if the token file
  cannot be opened or decoded, or the stored token's expiry lies before the current time.
  In every other case it returns the stored token and the world is as it was, the token
  file included. When a flow is due, the handler can be registered, the flow obtains a
  token and the token file can be created, the token file holds the new token after the
  call and nothing else is written; and \<^verbatim>\<open>getClient\<close> returns that token unless it is
  itself expired already.
\<close>

theorem getClient_authorizes_iff_unreadable_or_expired:
  "(web_flows w < web_flows (snd (getClient e w)) \<longleftrightarrow>
      inaccessible e tokenFile \<or>
      (case files w tokenFile of
         None \<Rightarrow> True
       | Some c \<Rightarrow>
           (case decode_token e c of None \<Rightarrow> True | Some tok \<Rightarrow> Expiry tok < now e))) \<and>
   (\<not> inaccessible e tokenFile \<and> files w tokenFile = Some c \<and>
    decode_token e c = Some stored \<and> \<not> Expiry stored < now e \<longrightarrow>
      getClient e w = (Return stored, w)) \<and>
   ((inaccessible e tokenFile \<or>
     (case files w tokenFile of
        None \<Rightarrow> True
      | Some c \<Rightarrow>
          (case decode_token e c of None \<Rightarrow> True | Some tok \<Rightarrow> Expiry tok < now e))) \<and>
    \<not> handler_registered w \<and> web_flow e (web_flows w) = Authorized new \<and>
    \<not> create_err e tokenFile \<longrightarrow>
      files (snd (getClient e w)) = (files w)(tokenFile \<mapsto> encode_token e new) \<and>
      (\<not> Expiry new < now e \<longrightarrow>
         getClient e w =
           (Return new,
            w\<lparr>web_flows := Suc (web_flows w), handler_registered := True,
              files := (files w)(tokenFile \<mapsto> encode_token e new)\<rparr>)))"
  using getClient_flows[of w e] getClient_stored[of e w c stored]
        getClient_saves[of e w new]
  by blast

theorem getClient_authorizes_iff_unreadable_or_expired_witness:
  "web_flows cached_world < web_flows (snd (getClient demo_env cached_world)) \<and>
   getClient demo_env cached_world =
     (Return new_token,
      cached_world\<lparr>web_flows := Suc (web_flows cached_world), handler_registered := True,
                   files := (files cached_world)(tokenFile \<mapsto> [8])\<rparr>) \<and>
   getClient (demo_env\<lparr>now := 5\<rparr>) cached_world = (Return old_token, cached_world) \<and>
   getClient demo_env empty_world =
     (Return new_token,
      empty_world\<lparr>web_flows := Suc (web_flows empty_world), handler_registered := True,
                  files := (files empty_world)(tokenFile \<mapsto> [8])\<rparr>)"
proof -
  have c: "files cached_world tokenFile = Some [7]" "files empty_world tokenFile = None"
    "\<not> handler_registered cached_world" "\<not> handler_registered empty_world"
    "web_flows cached_world = 0" "web_flows empty_world = 0"
    by (simp_all add: cached_world_def empty_world_def)
  have d: "decode_token demo_env [7] = Some old_token" "\<not> inaccessible demo_env tokenFile"
    "Expiry old_token < now demo_env" "\<not> Expiry old_token < 5"
    "web_flow demo_env 0 = Authorized new_token" "\<not> create_err demo_env tokenFile"
    "\<not> Expiry new_token < now demo_env" "encode_token demo_env new_token = [8]"
    by (simp_all add: demo_env_def old_token_def new_token_def tokenFile_def)
  show ?thesis
    using getClient_authorizes_iff_unreadable_or_expired
            [of cached_world demo_env "[7]" old_token new_token]
          getClient_authorizes_iff_unreadable_or_expired
            [of cached_world "demo_env\<lparr>now := 5\<rparr>" "[7]" old_token new_token]
          getClient_authorizes_iff_unreadable_or_expired
            [of empty_world demo_env "[7]" old_token new_token]
          c d
    by (simp add: demo_env_def)
qed

end
